theory Spec2Isabelle
  imports Main "HOL-Library.Sublist" "HOL-Library.Char_ord" "HOL-Library.List_Lexorder"
begin

section \<open>Results, errors and the stored rows\<close>

text \<open>
  Errors of the Go code are values. \<open>Fatal\<close> is the outcome of \<open>config.Log.Fatal\<close> /
  \<open>config.Log.Fatalf\<close>: the process is terminated and the function never returns to its
  caller. \<open>Err e\<close> is a returned non-nil \<open>error\<close>, \<open>Ok x\<close> a normal return.
\<close>

datatype error =
    FeeEmptyPayerAddress
  | DenomNotCached string string
  | UniqueViolation string
  | TransportError string
  | ResponseStatusError string string string
  | BodyReadError string
  | JSONDecodeError string
  | DenomLookupFailed string

datatype 'a result = Ok 'a | Err error | Fatal

text \<open>
  The row types of the relational store. The Go declarations of the models live outside
  \<open>src/\<close>; the fields are the ones the functions of \<open>db/db.go\<close> and \<open>db/osmosis.go\<close> read
  and write. Identifiers are \<open>uint\<close> primary keys (0 is the unset value), heights are
  \<open>int64\<close>, a \<open>time.Time\<close> is an integer with 0 for the zero time, a nullable foreign key
  (\<open>*uint\<close>) is an option.
\<close>

record BlockOnly =
  blk_ID :: nat
  blk_Height :: int
  blk_TimeStamp :: int
  blk_Indexed :: bool
  blk_BlockchainID :: nat

record FailedBlock =
  fb_ID :: nat
  fb_Height :: int
  fb_BlockchainID :: nat

record Chain =
  chn_ID :: nat
  chn_ChainID :: string
  chn_Name :: string

record Address =
  adr_ID :: nat
  adr_Address :: string

record TxOnly =
  tx_ID :: nat
  tx_Hash :: string
  tx_Code :: nat
  tx_BlockID :: nat
  tx_SignerAddressID :: "nat option"

record FeeOnly =
  fee_ID :: nat
  fee_TxID :: nat
  fee_Amount :: int
  fee_DenominationID :: nat
  fee_PayerAddressID :: nat

record MessageType =
  mty_ID :: nat
  mty_MessageType :: string

record MessageOnly =
  msg_ID :: nat
  msg_TxID :: nat
  msg_MessageTypeID :: nat
  msg_MessageIndex :: int

record TaxableTransactionOnly =
  ttx_ID :: nat
  ttx_MessageID :: nat
  ttx_AmountSent :: int
  ttx_AmountReceived :: int
  ttx_DenominationSentID :: nat
  ttx_DenominationReceivedID :: nat
  ttx_SenderAddressID :: "nat option"
  ttx_ReceiverAddressID :: "nat option"

record Denom =
  den_ID :: nat
  den_Base :: string
  den_Symbol :: string
  den_Name :: string

record TaxableEventRow =
  tev_ID :: nat
  tev_Source :: nat
  tev_Amount :: int
  tev_EventHash :: string
  tev_DenominationID :: nat
  tev_BlockID :: nat
  tev_EventAddressID :: "nat option"

text \<open>
  The database: one list of rows per table, kept in insertion order, which is the order
  of the primary key (a new row gets an identifier above all present ones).
\<close>

record store =
  blocks :: "BlockOnly list"
  failed_blocks :: "FailedBlock list"
  chains :: "Chain list"
  addresses :: "Address list"
  txes :: "TxOnly list"
  fees :: "FeeOnly list"
  message_types :: "MessageType list"
  messages :: "MessageOnly list"
  taxable_txs :: "TaxableTransactionOnly list"
  taxable_events :: "TaxableEventRow list"
  denoms :: "Denom list"

definition empty_store :: store where
  "empty_store = \<lparr>blocks = [], failed_blocks = [], chains = [], addresses = [], txes = [],
     fees = [], message_types = [], messages = [], taxable_txs = [], taxable_events = [],
     denoms = []\<rparr>"

section \<open>The gorm operations the code calls\<close>

text \<open>
  \<open>db.Transaction(f)\<close> commits the writes of \<open>f\<close> when \<open>f\<close> returns nil and rolls all of
  them back when it returns an error. When the process is terminated inside \<open>f\<close> the
  transaction is never committed, so the database keeps its state from before.
\<close>

definition Transaction :: "(store \<Rightarrow> store result) \<Rightarrow> store \<Rightarrow> store \<times> unit result" where
  "Transaction body s =
     (case body s of
        Ok s' \<Rightarrow> (s', Ok ())
      | Err e \<Rightarrow> (s, Err e)
      | Fatal \<Rightarrow> (s, Fatal))"

text \<open>A \<open>for _, x := range xs\<close> loop whose body returns early on an error.\<close>

fun for_each :: "('a \<Rightarrow> store \<Rightarrow> store result) \<Rightarrow> 'a list \<Rightarrow> store \<Rightarrow> store result" where
  "for_each f [] s = Ok s"
| "for_each f (x # xs) s =
     (case f x s of
        Ok s' \<Rightarrow> for_each f xs s'
      | Err e \<Rightarrow> Err e
      | Fatal \<Rightarrow> Fatal)"

definition next_id :: "('r \<Rightarrow> nat) \<Rightarrow> 'r list \<Rightarrow> nat" where
  "next_id ident rows = Suc (fold max (map ident rows) 0)"

text \<open>
  \<open>Where(cond).FirstOrCreate(&dest)\<close>: the first row (by primary key) that satisfies the
  condition is loaded into \<open>dest\<close>; when there is none, \<open>dest\<close> is inserted with a fresh
  identifier. The storage layer itself is taken as reliable (no connection loss), so the
  operation does not fail.
\<close>

definition FirstOrCreate ::
  "('r \<Rightarrow> bool) \<Rightarrow> (nat \<Rightarrow> 'r) \<Rightarrow> ('r \<Rightarrow> nat) \<Rightarrow> 'r list \<Rightarrow> 'r \<times> 'r list" where
  "FirstOrCreate cond dest ident rows =
     (case find cond rows of
        Some r \<Rightarrow> (r, rows)
      | None \<Rightarrow> (let r = dest (next_id ident rows) in (r, rows @ [r])))"

text \<open>
  A struct given to \<open>Where\<close> constrains only its non-zero fields: \<open>wh z w v\<close> is the
  condition that a field with zero value \<open>z\<close>, set to \<open>w\<close> in the struct, puts on the
  column value \<open>v\<close>.
\<close>

definition wh :: "'a \<Rightarrow> 'a \<Rightarrow> 'a \<Rightarrow> bool" where
  "wh z w v \<longleftrightarrow> w = z \<or> v = w"

definition where_Address :: "string \<Rightarrow> Address \<Rightarrow> bool" where
  "where_Address a r \<longleftrightarrow> wh [] a (adr_Address r)"

definition FirstOrCreate_Address :: "string \<Rightarrow> store \<Rightarrow> Address \<times> store" where
  "FirstOrCreate_Address a s =
     (case FirstOrCreate (where_Address a) (\<lambda>i. \<lparr>adr_ID = i, adr_Address = a\<rparr>) adr_ID
             (addresses s) of
        (r, rows) \<Rightarrow> (r, s\<lparr>addresses := rows\<rparr>))"

definition where_Block :: "int \<Rightarrow> nat \<Rightarrow> BlockOnly \<Rightarrow> bool" where
  "where_Block h c r \<longleftrightarrow> wh 0 h (blk_Height r) \<and> wh 0 c (blk_BlockchainID r)"

text \<open>
  \<open>Where(Block{Height, BlockchainID}).Assign(Block{Indexed: true, TimeStamp: blockTime})
  .FirstOrCreate(&block)\<close>: a found row is updated with the non-zero assigned fields (an
  \<open>UPDATE\<close> by its primary key), a missing one is created from \<open>block\<close>.
\<close>

definition assign_Block :: "int \<Rightarrow> BlockOnly \<Rightarrow> BlockOnly" where
  "assign_Block blockTime r =
     r\<lparr>blk_Indexed := True,
       blk_TimeStamp := (if blockTime = 0 then blk_TimeStamp r else blockTime)\<rparr>"

definition FirstOrCreate_Block_Assign :: "int \<Rightarrow> int \<Rightarrow> nat \<Rightarrow> store \<Rightarrow> BlockOnly \<times> store" where
  "FirstOrCreate_Block_Assign blockHeight blockTime dbChainID s =
     (case find (where_Block blockHeight dbChainID) (blocks s) of
        Some r \<Rightarrow>
          (assign_Block blockTime r,
           s\<lparr>blocks := map (\<lambda>x. if blk_ID x = blk_ID r then assign_Block blockTime x else x)
                          (blocks s)\<rparr>)
      | None \<Rightarrow>
          (let r = \<lparr>blk_ID = next_id blk_ID (blocks s), blk_Height = blockHeight,
                    blk_TimeStamp = blockTime, blk_Indexed = True,
                    blk_BlockchainID = dbChainID\<rparr>
           in (r, s\<lparr>blocks := blocks s @ [r]\<rparr>)))"

definition where_Tx :: "string \<Rightarrow> TxOnly \<Rightarrow> bool" where
  "where_Tx h r \<longleftrightarrow> wh [] h (tx_Hash r)"

definition FirstOrCreate_Tx :: "TxOnly \<Rightarrow> store \<Rightarrow> TxOnly \<times> store" where
  "FirstOrCreate_Tx txOnly s =
     (case FirstOrCreate (where_Tx (tx_Hash txOnly)) (\<lambda>i. txOnly\<lparr>tx_ID := i\<rparr>) tx_ID (txes s) of
        (r, rows) \<Rightarrow> (r, s\<lparr>txes := rows\<rparr>))"

definition where_Fee :: "nat \<Rightarrow> nat \<Rightarrow> FeeOnly \<Rightarrow> bool" where
  "where_Fee t d r \<longleftrightarrow> wh 0 t (fee_TxID r) \<and> wh 0 d (fee_DenominationID r)"

definition FirstOrCreate_Fee :: "FeeOnly \<Rightarrow> store \<Rightarrow> FeeOnly \<times> store" where
  "FirstOrCreate_Fee thisFee s =
     (case FirstOrCreate (where_Fee (fee_TxID thisFee) (fee_DenominationID thisFee))
             (\<lambda>i. thisFee\<lparr>fee_ID := i\<rparr>) fee_ID (fees s) of
        (r, rows) \<Rightarrow> (r, s\<lparr>fees := rows\<rparr>))"

definition where_MessageType :: "string \<Rightarrow> MessageType \<Rightarrow> bool" where
  "where_MessageType m r \<longleftrightarrow> wh [] m (mty_MessageType r)"

definition FirstOrCreate_MessageType :: "string \<Rightarrow> store \<Rightarrow> MessageType \<times> store" where
  "FirstOrCreate_MessageType m s =
     (case FirstOrCreate (where_MessageType m) (\<lambda>i. \<lparr>mty_ID = i, mty_MessageType = m\<rparr>) mty_ID
             (message_types s) of
        (r, rows) \<Rightarrow> (r, s\<lparr>message_types := rows\<rparr>))"

definition where_Message :: "nat \<Rightarrow> nat \<Rightarrow> int \<Rightarrow> MessageOnly \<Rightarrow> bool" where
  "where_Message t m i r \<longleftrightarrow>
     wh 0 t (msg_TxID r) \<and> wh 0 m (msg_MessageTypeID r) \<and> wh 0 i (msg_MessageIndex r)"

definition FirstOrCreate_Message :: "MessageOnly \<Rightarrow> store \<Rightarrow> MessageOnly \<times> store" where
  "FirstOrCreate_Message msg s =
     (case FirstOrCreate
             (where_Message (msg_TxID msg) (msg_MessageTypeID msg) (msg_MessageIndex msg))
             (\<lambda>i. msg\<lparr>msg_ID := i\<rparr>) msg_ID (messages s) of
        (r, rows) \<Rightarrow> (r, s\<lparr>messages := rows\<rparr>))"

text \<open>
  The amounts are of a numeric type declared outside \<open>src/\<close>; the condition compares them
  as they are given.
\<close>

definition where_TaxableTransaction :: "nat \<Rightarrow> int \<Rightarrow> int \<Rightarrow> TaxableTransactionOnly \<Rightarrow> bool" where
  "where_TaxableTransaction m sent received r \<longleftrightarrow>
     wh 0 m (ttx_MessageID r) \<and> ttx_AmountSent r = sent \<and> ttx_AmountReceived r = received"

definition FirstOrCreate_TaxableTransaction ::
  "TaxableTransactionOnly \<Rightarrow> store \<Rightarrow> TaxableTransactionOnly \<times> store" where
  "FirstOrCreate_TaxableTransaction thisTaxableTx s =
     (case FirstOrCreate
             (where_TaxableTransaction (ttx_MessageID thisTaxableTx)
                (ttx_AmountSent thisTaxableTx) (ttx_AmountReceived thisTaxableTx))
             (\<lambda>i. thisTaxableTx\<lparr>ttx_ID := i\<rparr>) ttx_ID (taxable_txs s) of
        (r, rows) \<Rightarrow> (r, s\<lparr>taxable_txs := rows\<rparr>))"

section \<open>IndexNewBlock (db/db.go)\<close>

text \<open>
  The decoded input: a \<open>TxDBWrapper\<close> bundles the transaction with its signer, fees and
  messages. Addresses and message types arrive from the decoder with their natural key
  only (no identifier), so they are their strings; a fee's \<open>Denomination\<close> is the cached
  \<open>Denom\<close> row.
\<close>

record Fee =
  Fee_Amount :: int
  Fee_Denomination :: Denom
  Fee_PayerAddress :: string

record TaxableTxDBWrapper =
  TaxableTx_AmountSent :: int
  TaxableTx_AmountReceived :: int
  TaxableTx_DenominationSentID :: nat
  TaxableTx_DenominationReceivedID :: nat
  SenderAddress :: string
  ReceiverAddress :: string

record MessageDBWrapper =
  Message_MessageType :: string
  Message_MessageIndex :: int
  TaxableTxs :: "TaxableTxDBWrapper list"

record TxDBWrapper =
  Tx_Hash :: string
  Tx_Code :: nat
  Tx_Fees :: "Fee list"
  SignerAddress :: string
  Messages :: "MessageDBWrapper list"

text \<open>
  Each database call of the source is followed by \<open>if err != nil { return err }\<close>. With
  the reliable storage of this model a \<open>FirstOrCreate\<close> gives no error, so these
  returns are never taken; the returns and the exit that depend on the input (empty
  payer address, denomination not cached, empty message type) are the \<open>Err\<close> and
  \<open>Fatal\<close> branches below.

  An optional address is stored, and its identifier taken, only when the string is not
  empty (signer, sender, receiver and, in \<open>db/osmosis.go\<close>, the event address).
\<close>

definition optional_address :: "string \<Rightarrow> store \<Rightarrow> nat option \<times> store" where
  "optional_address a s =
     (if a \<noteq> [] then
        (case FirstOrCreate_Address a s of (r, s') \<Rightarrow> (Some (adr_ID r), s'))
      else (None, s))"

text \<open>The body of \<open>for _, taxableTx := range message.TaxableTxs\<close> (lines 229-267).\<close>

definition index_taxable_tx :: "nat \<Rightarrow> TaxableTxDBWrapper \<Rightarrow> store \<Rightarrow> store result" where
  "index_taxable_tx msgID taxableTx s =
     (case optional_address (SenderAddress taxableTx) s of
        (senderID, s1) \<Rightarrow>
     (case optional_address (ReceiverAddress taxableTx) s1 of
        (receiverID, s2) \<Rightarrow>
     (case FirstOrCreate_TaxableTransaction
             \<lparr>ttx_ID = 0, ttx_MessageID = msgID,
              ttx_AmountSent = TaxableTx_AmountSent taxableTx,
              ttx_AmountReceived = TaxableTx_AmountReceived taxableTx,
              ttx_DenominationSentID = TaxableTx_DenominationSentID taxableTx,
              ttx_DenominationReceivedID = TaxableTx_DenominationReceivedID taxableTx,
              ttx_SenderAddressID = senderID, ttx_ReceiverAddressID = receiverID\<rparr> s2 of
        (thisTaxableTx, s3) \<Rightarrow> Ok s3)))"

text \<open>
  The body of \<open>for _, message := range transaction.Messages\<close> (lines 208-268). An empty
  message type reaches \<open>config.Log.Fatal\<close>.
\<close>

definition index_message :: "nat \<Rightarrow> MessageDBWrapper \<Rightarrow> store \<Rightarrow> store result" where
  "index_message txID message s =
     (if Message_MessageType message = [] then Fatal
      else
        (case FirstOrCreate_MessageType (Message_MessageType message) s of
           (messageType, s1) \<Rightarrow>
        (case FirstOrCreate_Message
                \<lparr>msg_ID = 0, msg_TxID = txID, msg_MessageTypeID = mty_ID messageType,
                 msg_MessageIndex = Message_MessageIndex message\<rparr> s1 of
           (msg, s2) \<Rightarrow> for_each (index_taxable_tx (msg_ID msg)) (TaxableTxs message) s2)))"

text \<open>The body of \<open>for _, fee := range transaction.Tx.Fees\<close> (lines 177-206).\<close>

definition index_fee :: "nat \<Rightarrow> Fee \<Rightarrow> store \<Rightarrow> store result" where
  "index_fee txID fee s =
     (case (if Fee_PayerAddress fee \<noteq> [] then
              (case FirstOrCreate_Address (Fee_PayerAddress fee) s of
                 (payer, s1) \<Rightarrow> Ok (adr_ID payer, s1))
            else if Fee_PayerAddress fee = [] then Err FeeEmptyPayerAddress
            else Ok (0, s)) of
        Ok (payerAddressID, s1) \<Rightarrow>
          if den_Base (Fee_Denomination fee) = [] \<or> den_Symbol (Fee_Denomination fee) = [] then
            Err (DenomNotCached (den_Base (Fee_Denomination fee))
                   (den_Symbol (Fee_Denomination fee)))
          else
            (case FirstOrCreate_Fee
                    \<lparr>fee_ID = 0, fee_TxID = txID, fee_Amount = Fee_Amount fee,
                     fee_DenominationID = den_ID (Fee_Denomination fee),
                     fee_PayerAddressID = payerAddressID\<rparr> s1 of
               (thisFee, s2) \<Rightarrow> Ok s2)
      | Err e \<Rightarrow> Err e
      | Fatal \<Rightarrow> Fatal)"

text \<open>The body of \<open>for _, transaction := range txs\<close> (lines 150-269).\<close>

definition index_tx :: "nat \<Rightarrow> TxDBWrapper \<Rightarrow> store \<Rightarrow> store result" where
  "index_tx blockID transaction s =
     (case optional_address (SignerAddress transaction) s of
        (signerAddressID, s1) \<Rightarrow>
     (case FirstOrCreate_Tx
             \<lparr>tx_ID = 0, tx_Hash = Tx_Hash transaction, tx_Code = Tx_Code transaction,
              tx_BlockID = blockID, tx_SignerAddressID = signerAddressID\<rparr> s1 of
        (txOnly, s2) \<Rightarrow>
     (case for_each (index_fee (tx_ID txOnly)) (Tx_Fees transaction) s2 of
        Ok s3 \<Rightarrow> for_each (index_message (tx_ID txOnly)) (Messages transaction) s3
      | Err e \<Rightarrow> Err e
      | Fatal \<Rightarrow> Fatal)))"

text \<open>\<open>DELETE FROM failed_blocks WHERE height = ? AND blockchain_id = ?\<close>\<close>

definition delete_failed_block :: "int \<Rightarrow> nat \<Rightarrow> store \<Rightarrow> store" where
  "delete_failed_block blockHeight dbChainID s =
     s\<lparr>failed_blocks :=
         filter (\<lambda>fb. \<not> (fb_Height fb = blockHeight \<and> fb_BlockchainID fb = dbChainID))
           (failed_blocks s)\<rparr>"

definition IndexNewBlock_body :: "int \<Rightarrow> int \<Rightarrow> TxDBWrapper list \<Rightarrow> nat \<Rightarrow> store \<Rightarrow> store result" where
  "IndexNewBlock_body blockHeight blockTime txs dbChainID s =
     (case FirstOrCreate_Block_Assign blockHeight blockTime dbChainID
             (delete_failed_block blockHeight dbChainID s) of
        (block, s1) \<Rightarrow> for_each (index_tx (blk_ID block)) txs s1)"

definition IndexNewBlock ::
  "store \<Rightarrow> int \<Rightarrow> int \<Rightarrow> TxDBWrapper list \<Rightarrow> nat \<Rightarrow> store \<times> unit result" where
  "IndexNewBlock db blockHeight blockTime txs dbChainID =
     Transaction (IndexNewBlock_body blockHeight blockTime txs dbChainID) db"

section \<open>Gap detection (db/db.go)\<close>

text \<open>
  The SQL of both queries casts its parameters with \<open>::int\<close>, the 32-bit integer of
  PostgreSQL: a value outside its range makes the query fail. \<open>wrap_int64\<close> is Go's
  \<open>int64\<close> addition.
\<close>

definition in_int4 :: "int \<Rightarrow> bool" where
  "in_int4 x \<longleftrightarrow> - 2147483648 \<le> x \<and> x \<le> 2147483647"

definition wrap_int64 :: "int \<Rightarrow> int" where
  "wrap_int64 x = (x + 9223372036854775808) mod 18446744073709551616 - 9223372036854775808"

definition zero_Block :: BlockOnly where
  "zero_Block = \<lparr>blk_ID = 0, blk_Height = 0, blk_TimeStamp = 0, blk_Indexed = False,
     blk_BlockchainID = 0\<rparr>"

text \<open>\<open>Order("height desc").First(&block)\<close>: a row of greatest height, if there is a row.\<close>

fun first_by_height_desc :: "BlockOnly list \<Rightarrow> BlockOnly option" where
  "first_by_height_desc [] = None"
| "first_by_height_desc (b # bs) =
     (case first_by_height_desc bs of
        None \<Rightarrow> Some b
      | Some m \<Rightarrow> if blk_Height m \<le> blk_Height b then Some b else Some m)"

definition indexed_rows :: "store \<Rightarrow> nat \<Rightarrow> BlockOnly list" where
  "indexed_rows s chainID =
     filter (\<lambda>b. blk_BlockchainID b = chainID \<and> blk_Indexed b) (blocks s)"

text \<open>
  The error of the query is not looked at: on a failed query, and when no row is found,
  the zero \<open>Block\<close> is returned.
\<close>

definition GetHighestIndexedBlock :: "store \<Rightarrow> nat \<Rightarrow> BlockOnly" where
  "GetHighestIndexedBlock db chainID =
     (if \<not> in_int4 (int chainID) then zero_Block
      else case first_by_height_desc (indexed_rows db chainID) of
             None \<Rightarrow> zero_Block
           | Some b \<Rightarrow> b)"

text \<open>Lines 73-78: the upper bound the query is run with.\<close>

definition effective_end :: "store \<Rightarrow> int \<Rightarrow> int \<Rightarrow> nat \<Rightarrow> int" where
  "effective_end db start end chainID =
     (let currMax = GetHighestIndexedBlock db chainID
      in if blk_Height currMax > start then wrap_int64 (blk_Height currMax + 1) else end)"

text \<open>
  \<open>generate_series(start, end)\<close> without the heights that have an \<open>indexed = true\<close> row of
  the chain, in ascending order.
\<close>

definition missing_blocks :: "store \<Rightarrow> int \<Rightarrow> int \<Rightarrow> nat \<Rightarrow> int list" where
  "missing_blocks db start end chainID =
     filter (\<lambda>i. \<not> (\<exists>b \<in> set (blocks db).
                blk_Height b = i \<and> blk_BlockchainID b = chainID \<and> blk_Indexed b))
       [start..end]"

text \<open>
  An empty result is the error \<open>no rows in result set\<close>, answered with \<open>start\<close>; any other
  error of the query goes to \<open>config.Log.Fatalf\<close>.
\<close>

definition GetFirstMissingBlockInRange :: "store \<Rightarrow> int \<Rightarrow> int \<Rightarrow> nat \<Rightarrow> int result" where
  "GetFirstMissingBlockInRange db start end chainID =
     (let end' = effective_end db start end chainID
      in if \<not> (in_int4 start \<and> in_int4 end' \<and> in_int4 (int chainID)) then Fatal
         else case missing_blocks db start end' chainID of
                [] \<Rightarrow> Ok start
              | firstMissingBlock # _ \<Rightarrow> Ok firstMissingBlock)"

text \<open>The heights of a chain that have an \<open>indexed = true\<close> row.\<close>

definition indexed_heights :: "store \<Rightarrow> nat \<Rightarrow> int set" where
  "indexed_heights db chainID = blk_Height ` set (indexed_rows db chainID)"

text \<open>A store whose only rows are indexed blocks of one chain at the given heights.\<close>

definition indexed_store :: "nat \<Rightarrow> int list \<Rightarrow> store" where
  "indexed_store chainID hs =
     empty_store\<lparr>blocks :=
       map (\<lambda>(i, h). \<lparr>blk_ID = i, blk_Height = h, blk_TimeStamp = 1, blk_Indexed = True,
                      blk_BlockchainID = chainID\<rparr>)
         (enumerate 1 hs)\<rparr>"

section \<open>Reward events (db/osmosis.go)\<close>

text \<open>
  The \<open>TaxableEvent\<close> value that \<open>IndexOsmoRewards\<close> builds and \<open>createTaxableEvents\<close>
  stores: its block is given by height and chain (\<open>Block{Height, Chain{ChainID, Name}}\<close>),
  its address by the address string, its denomination is the resolved \<open>Denom\<close>.
\<close>

record TaxableEvent =
  evt_Source :: nat
  evt_Amount :: int
  evt_EventHash :: string
  evt_Denomination :: Denom
  evt_BlockHeight :: int
  evt_ChainID :: string
  evt_ChainName :: string
  evt_EventAddress :: string

text \<open>\<open>Where("event_hash = ?", event.EventHash).Count(&count); return count > 0\<close>\<close>

definition eventExists :: "store \<Rightarrow> TaxableEvent \<Rightarrow> bool" where
  "eventExists db event \<longleftrightarrow>
     length (filter (\<lambda>r. tev_EventHash r = evt_EventHash event) (taxable_events db)) > 0"

definition where_Chain :: "string \<Rightarrow> string \<Rightarrow> Chain \<Rightarrow> bool" where
  "where_Chain chainID name r \<longleftrightarrow> wh [] chainID (chn_ChainID r) \<and> wh [] name (chn_Name r)"

definition FirstOrCreate_Chain :: "string \<Rightarrow> string \<Rightarrow> store \<Rightarrow> Chain \<times> store" where
  "FirstOrCreate_Chain chainID name s =
     (case FirstOrCreate (where_Chain chainID name)
             (\<lambda>i. \<lparr>chn_ID = i, chn_ChainID = chainID, chn_Name = name\<rparr>) chn_ID (chains s) of
        (r, rows) \<Rightarrow> (r, s\<lparr>chains := rows\<rparr>))"

text \<open>
  \<open>Where(&event.Block).FirstOrCreate(&event.Block)\<close>: of the columns of the struct only
  \<open>Height\<close> is set (the chain is the nested \<open>Chain\<close> value, not a column), so the
  condition is on the height. A created block belongs to the chain found or created
  just before; it is not indexed and has the zero time.
\<close>

definition where_Block_Height :: "int \<Rightarrow> BlockOnly \<Rightarrow> bool" where
  "where_Block_Height h r \<longleftrightarrow> wh 0 h (blk_Height r)"

definition FirstOrCreate_Block :: "int \<Rightarrow> nat \<Rightarrow> store \<Rightarrow> BlockOnly \<times> store" where
  "FirstOrCreate_Block h chainRowID s =
     (case FirstOrCreate (where_Block_Height h)
             (\<lambda>i. \<lparr>blk_ID = i, blk_Height = h, blk_TimeStamp = 0, blk_Indexed = False,
                   blk_BlockchainID = chainRowID\<rparr>) blk_ID (blocks s) of
        (r, rows) \<Rightarrow> (r, s\<lparr>blocks := rows\<rparr>))"

text \<open>
  Modelled from the spec: the declaration of the \<open>taxable_event\<close> table is not in
  \<open>src/\<close>; \<open>event_hash\<close> is its unique de-duplication key, enforced by the storage layer.
  \<open>Create(&event)\<close> inserts the row, and fails when a row with the hash is there.
\<close>

definition Create_TaxableEvent :: "TaxableEvent \<Rightarrow> nat \<Rightarrow> nat option \<Rightarrow> store \<Rightarrow> store result" where
  "Create_TaxableEvent event blockID addressID s =
     (if eventExists s event then Err (UniqueViolation (evt_EventHash event))
      else Ok (s\<lparr>taxable_events := taxable_events s @
                 [\<lparr>tev_ID = next_id tev_ID (taxable_events s), tev_Source = evt_Source event,
                   tev_Amount = evt_Amount event, tev_EventHash = evt_EventHash event,
                   tev_DenominationID = den_ID (evt_Denomination event),
                   tev_BlockID = blockID, tev_EventAddressID = addressID\<rparr>]\<rparr>))"

text \<open>The body of \<open>for _, event := range events\<close> (lines 33-60).\<close>

definition create_event :: "TaxableEvent \<Rightarrow> store \<Rightarrow> store result" where
  "create_event event s =
     (case FirstOrCreate_Chain (evt_ChainID event) (evt_ChainName event) s of
        (chain, s1) \<Rightarrow>
     (case FirstOrCreate_Block (evt_BlockHeight event) (chn_ID chain) s1 of
        (block, s2) \<Rightarrow>
     (case optional_address (evt_EventAddress event) s2 of
        (addressID, s3) \<Rightarrow>
          if den_Base (evt_Denomination event) = [] \<or> den_Symbol (evt_Denomination event) = []
          then Err (DenomNotCached (den_Base (evt_Denomination event))
                      (den_Symbol (evt_Denomination event)))
          else Create_TaxableEvent event (blk_ID block) addressID s3)))"

definition createTaxableEvents :: "store \<Rightarrow> TaxableEvent list \<Rightarrow> store \<times> unit result" where
  "createTaxableEvents db events = Transaction (for_each create_event events) db"

text \<open>
  The batch loop of \<open>IndexOsmoRewards\<close> (lines 100-118). \<open>batch_slice dbEvents i\<close> is
  \<open>dbEvents[i:batchEnd]\<close>; the index \<open>i\<close> is below the length when it is computed, so
  the slice bounds are in range.
\<close>

definition batchSize :: nat where
  "batchSize = 500"

definition batchEnd :: "'a list \<Rightarrow> nat \<Rightarrow> nat" where
  "batchEnd dbEvents i =
     (if i + batchSize > length dbEvents then length dbEvents - 1 else i + batchSize)"

definition batch_slice :: "'a list \<Rightarrow> nat \<Rightarrow> 'a list" where
  "batch_slice dbEvents i = take (batchEnd dbEvents i - i) (drop i dbEvents)"

text \<open>One round of the loop: the batch is skipped, or handed to \<open>createTaxableEvents\<close>.\<close>

definition process_batch :: "store \<Rightarrow> TaxableEvent list \<Rightarrow> nat \<Rightarrow> store \<times> unit result" where
  "process_batch db dbEvents i =
     (if eventExists db (dbEvents ! i) then (db, Ok ())
      else createTaxableEvents db (batch_slice dbEvents i))"

function insert_batches :: "store \<Rightarrow> TaxableEvent list \<Rightarrow> nat \<Rightarrow> store \<times> unit result" where
  "insert_batches db dbEvents i =
     (if i < length dbEvents then
        (case process_batch db dbEvents i of
           (db', Ok u) \<Rightarrow> insert_batches db' dbEvents (i + batchSize)
         | (db', Err e) \<Rightarrow> (db', Err e)
         | (db', Fatal) \<Rightarrow> (db', Fatal))
      else (db, Ok ()))"
  by pat_completeness auto
termination
  by (relation "measure (\<lambda>(db, dbEvents, i). length dbEvents - i)") (auto simp: batchSize_def)

declare insert_batches.simps [simp del]

text \<open>
  The reward records of the caller, and what \<open>IndexOsmoRewards\<close> uses from outside
  \<open>src/\<close>: the denomination cache \<open>GetDenomForBase\<close>, the fallback \<open>AddUnknownDenom\<close>
  (which writes to the database on its own), the digest of
  \<open>fmt.Sprint(curr.Address, curr.EpochBlockHeight, coin)\<close> in hexadecimal, and the constant
  \<open>OsmosisRewardDistribution\<close>.
\<close>

record Coin =
  coin_Denom :: string
  coin_Amount :: int

record Rewards =
  rw_Address :: string
  rw_EpochBlockHeight :: int
  rw_Coins :: "Coin list"

record environment =
  GetDenomForBase :: "string \<Rightarrow> error + Denom"
  AddUnknownDenom :: "store \<Rightarrow> string \<Rightarrow> store \<times> Denom result"
  md5_hex :: "string \<Rightarrow> int \<Rightarrow> Coin \<Rightarrow> string"
  OsmosisRewardDistribution :: nat

text \<open>The body of \<open>for _, coin := range curr.Coins\<close> (lines 70-92), and the two loops.\<close>

definition coin_event ::
  "environment \<Rightarrow> string \<Rightarrow> string \<Rightarrow> Rewards \<Rightarrow> Coin \<Rightarrow> store \<Rightarrow> store \<times> TaxableEvent result" where
  "coin_event env chainID chainName cur coin db =
     (case (case GetDenomForBase env (coin_Denom coin) of
              Inr denom \<Rightarrow> (db, Ok denom)
            | Inl err \<Rightarrow> AddUnknownDenom env db (coin_Denom coin)) of
        (db', Ok denom) \<Rightarrow>
          (db', Ok \<lparr>evt_Source = OsmosisRewardDistribution env, evt_Amount = coin_Amount coin,
                    evt_EventHash = md5_hex env (rw_Address cur) (rw_EpochBlockHeight cur) coin,
                    evt_Denomination = denom, evt_BlockHeight = rw_EpochBlockHeight cur,
                    evt_ChainID = chainID, evt_ChainName = chainName,
                    evt_EventAddress = rw_Address cur\<rparr>)
      | (db', Err e) \<Rightarrow> (db', Err e)
      | (db', Fatal) \<Rightarrow> (db', Fatal))"

fun coin_events ::
  "environment \<Rightarrow> string \<Rightarrow> string \<Rightarrow> Rewards \<Rightarrow> Coin list \<Rightarrow> store \<Rightarrow> TaxableEvent list \<Rightarrow>
     store \<times> TaxableEvent list result" where
  "coin_events env chainID chainName cur [] db dbEvents = (db, Ok dbEvents)"
| "coin_events env chainID chainName cur (coin # coins) db dbEvents =
     (case coin_event env chainID chainName cur coin db of
        (db', Ok evt) \<Rightarrow> coin_events env chainID chainName cur coins db' (dbEvents @ [evt])
      | (db', Err e) \<Rightarrow> (db', Err e)
      | (db', Fatal) \<Rightarrow> (db', Fatal))"

fun reward_events ::
  "environment \<Rightarrow> string \<Rightarrow> string \<Rightarrow> Rewards list \<Rightarrow> store \<Rightarrow> TaxableEvent list \<Rightarrow>
     store \<times> TaxableEvent list result" where
  "reward_events env chainID chainName [] db dbEvents = (db, Ok dbEvents)"
| "reward_events env chainID chainName (cur # rewards) db dbEvents =
     (case coin_events env chainID chainName cur (rw_Coins cur) db dbEvents of
        (db', Ok dbEvents') \<Rightarrow> reward_events env chainID chainName rewards db' dbEvents'
      | (db', Err e) \<Rightarrow> (db', Err e)
      | (db', Fatal) \<Rightarrow> (db', Fatal))"

text \<open>\<open>sort.SliceStable\<close> by \<open>EventHash\<close> is the stable insertion sort by that key.\<close>

definition IndexOsmoRewards ::
  "environment \<Rightarrow> store \<Rightarrow> string \<Rightarrow> string \<Rightarrow> Rewards list \<Rightarrow> store \<times> unit result" where
  "IndexOsmoRewards env db chainID chainName rewards =
     (case reward_events env chainID chainName rewards db [] of
        (db', Ok dbEvents) \<Rightarrow> insert_batches db' (sort_key evt_EventHash dbEvents) 0
      | (db', Err e) \<Rightarrow> (db', Err e)
      | (db', Fatal) \<Rightarrow> (db', Fatal))"

section \<open>The chain client (the REST requests)\<close>

text \<open>
  An HTTP response as the three functions use it: the status code and status line, and
  what \<open>ioutil.ReadAll(resp.Body)\<close> gives, the bytes read and the error of reading. The
  network is the parameter \<open>get\<close> (\<open>http.Get\<close>), the JSON decoder of the response shape
  is the parameter \<open>unmarshal\<close>: \<open>json.Unmarshal(body, &result)\<close> takes the value of
  \<open>result\<close> and gives its new value and the error.
\<close>

record Response =
  StatusCode :: int
  Status :: string
  Body :: string
  BodyError :: "error option"

definition ReadAll :: "Response \<Rightarrow> string \<times> error option" where
  "ReadAll resp = (Body resp, BodyError resp)"

text \<open>The verb \<open>%d\<close> of \<open>fmt.Sprintf\<close> for an unsigned height: its decimal digits.\<close>

definition digit :: "nat \<Rightarrow> char" where
  "digit d = char_of (d + 48)"

function decimal :: "nat \<Rightarrow> string" where
  "decimal height =
     (if 10 \<le> height then decimal (height div 10) @ [digit (height mod 10)]
      else [digit height])"
  by pat_completeness auto
termination
  by (relation "measure (\<lambda>height. height)") auto

declare decimal.simps [simp del]

definition blocks_endpoint :: "nat \<Rightarrow> string" where
  "blocks_endpoint height = ''/cosmos/base/tendermint/v1beta1/blocks/'' @ decimal height"

definition latest_block_endpoint :: string where
  "latest_block_endpoint = ''/blocks/latest''"

definition txs_by_block_height_endpoint :: "nat \<Rightarrow> string" where
  "txs_by_block_height_endpoint height =
     ''/cosmos/tx/v1beta1/txs?events=tx.height='' @ decimal height @
     ''&pagination.limit=100&order_by=ORDER_BY_UNSPECIFIED''"

definition checkResponseErrorCode :: "string \<Rightarrow> Response \<Rightarrow> error option" where
  "checkResponseErrorCode requestEndpoint resp =
     (if StatusCode resp \<noteq> 200 then
        Some (ResponseStatusError requestEndpoint (Status resp) (fst (ReadAll resp)))
      else None)"

definition GetBlockByHeight ::
  "(string \<Rightarrow> error + Response) \<Rightarrow> (string \<Rightarrow> 'r \<Rightarrow> 'r \<times> error option) \<Rightarrow> 'r \<Rightarrow>
     string \<Rightarrow> nat \<Rightarrow> 'r \<times> error option" where
  "GetBlockByHeight get unmarshal zero host height =
     (let result = zero; requestEndpoint = blocks_endpoint height
      in case get (host @ requestEndpoint) of
           Inl err \<Rightarrow> (result, Some err)
         | Inr resp \<Rightarrow>
             (case checkResponseErrorCode requestEndpoint resp of
                Some err \<Rightarrow> (result, Some err)
              | None \<Rightarrow>
                  (case ReadAll resp of
                     (body, Some err) \<Rightarrow> (result, Some err)
                   | (body, None) \<Rightarrow> (fst (unmarshal body result), None))))"

definition GetTxsByBlockHeight ::
  "(string \<Rightarrow> error + Response) \<Rightarrow> (string \<Rightarrow> 'r \<Rightarrow> 'r \<times> error option) \<Rightarrow> 'r \<Rightarrow>
     string \<Rightarrow> nat \<Rightarrow> 'r \<times> error option" where
  "GetTxsByBlockHeight get unmarshal zero host height =
     (let result = zero; requestEndpoint = txs_by_block_height_endpoint height
      in case get (host @ requestEndpoint) of
           Inl err \<Rightarrow> (result, Some err)
         | Inr resp \<Rightarrow>
             (case checkResponseErrorCode requestEndpoint resp of
                Some err \<Rightarrow> (result, Some err)
              | None \<Rightarrow>
                  (case ReadAll resp of
                     (body, Some err) \<Rightarrow> (result, Some err)
                   | (body, None) \<Rightarrow>
                       (case unmarshal body result of
                          (result', Some err) \<Rightarrow> (result', Some err)
                        | (result', None) \<Rightarrow> (result', None)))))"

definition GetLatestBlock ::
  "(string \<Rightarrow> error + Response) \<Rightarrow> (string \<Rightarrow> 'r \<Rightarrow> 'r \<times> error option) \<Rightarrow> 'r \<Rightarrow>
     string \<Rightarrow> 'r \<times> error option" where
  "GetLatestBlock get unmarshal zero host =
     (let result = zero; requestEndpoint = latest_block_endpoint
      in case get (host @ requestEndpoint) of
           Inl err \<Rightarrow> (result, Some err)
         | Inr resp \<Rightarrow>
             (case checkResponseErrorCode requestEndpoint resp of
                Some err \<Rightarrow> (result, Some err)
              | None \<Rightarrow>
                  (case ReadAll resp of
                     (body, Some err) \<Rightarrow> (result, Some err)
                   | (body, None) \<Rightarrow>
                       (case unmarshal body result of
                          (result', Some err) \<Rightarrow> (result', Some err)
                        | (result', None) \<Rightarrow> (result', None)))))"

text \<open>
  A node that answers every request with status 200 and a body that is not JSON, and a
  decoder that accepts exactly the empty object.
\<close>

definition html_node :: "string \<Rightarrow> error + Response" where
  "html_node url =
     Inr \<lparr>StatusCode = 200, Status = ''200 OK'', Body = ''<html>not json</html>'',
          BodyError = None\<rparr>"

definition sample_unmarshal :: "string \<Rightarrow> nat \<Rightarrow> nat \<times> error option" where
  "sample_unmarshal body result =
     (if body = ''{}'' then (result, None) else (result, Some (JSONDecodeError body)))"

section \<open>Notions the theorems are stated with\<close>

text \<open>
  The highest indexed height of a chain as a set-level notion (0 when the chain has no
  indexed block, the height of the zero \<open>Block\<close>), and the upper bound of the search
  written with it.
\<close>

definition highest_indexed_height :: "store \<Rightarrow> nat \<Rightarrow> int" where
  "highest_indexed_height db chainID =
     (if indexed_heights db chainID = {} then 0 else Max (indexed_heights db chainID))"

definition search_end :: "store \<Rightarrow> int \<Rightarrow> int \<Rightarrow> nat \<Rightarrow> int" where
  "search_end db start end chainID =
     (if start < highest_indexed_height db chainID then highest_indexed_height db chainID + 1
      else end)"

text \<open>
  \<open>store_le s t\<close>: \<open>t\<close> is \<open>s\<close> with rows appended to the tables that the transaction loop
  of \<open>IndexNewBlock\<close> writes, and the other tables unchanged. A step is \<open>repeatable\<close> when,
  after it has succeeded, running it again in any later store succeeds with the same
  result and writes nothing.
\<close>

definition store_le :: "store \<Rightarrow> store \<Rightarrow> bool" where
  "store_le s t \<longleftrightarrow>
     blocks t = blocks s \<and> failed_blocks t = failed_blocks s \<and> chains t = chains s \<and>
     taxable_events t = taxable_events s \<and> denoms t = denoms s \<and>
     prefix (addresses s) (addresses t) \<and> prefix (txes s) (txes t) \<and>
     prefix (fees s) (fees t) \<and> prefix (message_types s) (message_types t) \<and>
     prefix (messages s) (messages t) \<and> prefix (taxable_txs s) (taxable_txs t)"

definition repeatable :: "(store \<Rightarrow> store result) \<Rightarrow> bool" where
  "repeatable f \<longleftrightarrow>
     (\<forall>s s'. f s = Ok s' \<longrightarrow> store_le s s' \<and> (\<forall>t. store_le s' t \<longrightarrow> f t = Ok t))"

definition repeatable_v :: "(store \<Rightarrow> 'a \<times> store) \<Rightarrow> bool" where
  "repeatable_v w \<longleftrightarrow>
     (\<forall>s r s'. w s = (r, s') \<longrightarrow> store_le s s' \<and> (\<forall>t. store_le s' t \<longrightarrow> w t = (r, t)))"

text \<open>A fee that passes both checks of the fee loop.\<close>

definition fee_valid :: "Fee \<Rightarrow> bool" where
  "fee_valid fee \<longleftrightarrow>
     Fee_PayerAddress fee \<noteq> [] \<and> den_Base (Fee_Denomination fee) \<noteq> [] \<and>
     den_Symbol (Fee_Denomination fee) \<noteq> []"

section \<open>Example inputs\<close>

definition uatom :: Denom where
  "uatom = \<lparr>den_ID = 1, den_Base = ''uatom'', den_Symbol = ''ATOM'', den_Name = ''Atom''\<rparr>"

text \<open>
  One transaction \<open>abc123\<close>: a fee of 500 uatom paid by \<open>cosmos1foo\<close> and one
  \<open>MsgSend\<close> with one transfer of 500 uatom from \<open>cosmos1foo\<close> to \<open>cosmos1bar\<close>.
\<close>

definition send_tx :: TxDBWrapper where
  "send_tx =
     \<lparr>Tx_Hash = ''abc123'', Tx_Code = 0,
      Tx_Fees = [\<lparr>Fee_Amount = 500, Fee_Denomination = uatom, Fee_PayerAddress = ''cosmos1foo''\<rparr>],
      SignerAddress = ''cosmos1foo'',
      Messages =
        [\<lparr>Message_MessageType = ''/cosmos.bank.v1beta1.MsgSend'', Message_MessageIndex = 0,
          TaxableTxs =
            [\<lparr>TaxableTx_AmountSent = 500, TaxableTx_AmountReceived = 500,
              TaxableTx_DenominationSentID = 1, TaxableTx_DenominationReceivedID = 1,
              SenderAddress = ''cosmos1foo'', ReceiverAddress = ''cosmos1bar''\<rparr>]\<rparr>]\<rparr>"

definition store_after_send_tx :: store where
  "store_after_send_tx =
     \<lparr>blocks =
        [\<lparr>blk_ID = 1, blk_Height = 100, blk_TimeStamp = 1700000000, blk_Indexed = True,
          blk_BlockchainID = 1\<rparr>],
      failed_blocks = [], chains = [],
      addresses =
        [\<lparr>adr_ID = 1, adr_Address = ''cosmos1foo''\<rparr>,
         \<lparr>adr_ID = 2, adr_Address = ''cosmos1bar''\<rparr>],
      txes =
        [\<lparr>tx_ID = 1, tx_Hash = ''abc123'', tx_Code = 0, tx_BlockID = 1,
          tx_SignerAddressID = Some 1\<rparr>],
      fees =
        [\<lparr>fee_ID = 1, fee_TxID = 1, fee_Amount = 500, fee_DenominationID = 1,
          fee_PayerAddressID = 1\<rparr>],
      message_types = [\<lparr>mty_ID = 1, mty_MessageType = ''/cosmos.bank.v1beta1.MsgSend''\<rparr>],
      messages = [\<lparr>msg_ID = 1, msg_TxID = 1, msg_MessageTypeID = 1, msg_MessageIndex = 0\<rparr>],
      taxable_txs =
        [\<lparr>ttx_ID = 1, ttx_MessageID = 1, ttx_AmountSent = 500, ttx_AmountReceived = 500,
          ttx_DenominationSentID = 1, ttx_DenominationReceivedID = 1,
          ttx_SenderAddressID = Some 1, ttx_ReceiverAddressID = Some 2\<rparr>],
      taxable_events = [], denoms = []\<rparr>"

definition tx_empty_payer :: TxDBWrapper where
  "tx_empty_payer =
     \<lparr>Tx_Hash = ''def456'', Tx_Code = 0,
      Tx_Fees = [\<lparr>Fee_Amount = 500, Fee_Denomination = uatom, Fee_PayerAddress = []\<rparr>],
      SignerAddress = ''cosmos1foo'', Messages = []\<rparr>"

definition tx_empty_message_type :: TxDBWrapper where
  "tx_empty_message_type =
     \<lparr>Tx_Hash = ''aaa111'', Tx_Code = 0, Tx_Fees = [], SignerAddress = ''cosmos1foo'',
      Messages = [\<lparr>Message_MessageType = [], Message_MessageIndex = 0, TaxableTxs = []\<rparr>]\<rparr>"

text \<open>A store with two pending failed blocks of chain 1, at heights 100 and 101.\<close>

definition store_failed_100_101 :: store where
  "store_failed_100_101 =
     empty_store\<lparr>failed_blocks :=
       [\<lparr>fb_ID = 1, fb_Height = 100, fb_BlockchainID = 1\<rparr>,
        \<lparr>fb_ID = 2, fb_Height = 101, fb_BlockchainID = 1\<rparr>]\<rparr>"

text \<open>
  \<open>store_ext s t\<close>: every table of \<open>t\<close> is the table of \<open>s\<close> with rows appended.
  \<open>event_stored db' e row\<close> says what \<open>createTaxableEvents\<close> has done for the event \<open>e\<close>
  when \<open>row\<close> is its row: the denomination was resolved, a chain row and a block row
  that meet the conditions of the two look-ups are there, the row refers to that block,
  and it refers to the address row of the event's address exactly when the address is
  not empty. \<open>batch_inserted db db' events\<close>: the \<open>taxable_event\<close> table of \<open>db'\<close> is the
  one of \<open>db\<close> followed by one such row for each event, in order.
\<close>

definition store_ext :: "store \<Rightarrow> store \<Rightarrow> bool" where
  "store_ext s t \<longleftrightarrow>
     prefix (blocks s) (blocks t) \<and> prefix (failed_blocks s) (failed_blocks t) \<and>
     prefix (chains s) (chains t) \<and> prefix (addresses s) (addresses t) \<and>
     prefix (txes s) (txes t) \<and> prefix (fees s) (fees t) \<and>
     prefix (message_types s) (message_types t) \<and> prefix (messages s) (messages t) \<and>
     prefix (taxable_txs s) (taxable_txs t) \<and> prefix (taxable_events s) (taxable_events t) \<and>
     prefix (denoms s) (denoms t)"




text \<open>Example rewards: three events of one chain, the second without an address.\<close>

definition uosmo :: Denom where
  "uosmo = \<lparr>den_ID = 2, den_Base = ''uosmo'', den_Symbol = ''OSMO'', den_Name = ''Osmosis''\<rparr>"



definition sample_environment :: environment where
  "sample_environment =
     \<lparr>GetDenomForBase = (\<lambda>base. if base = ''uosmo'' then Inr uosmo
                                 else Inl (DenomLookupFailed base)),
      AddUnknownDenom = (\<lambda>db base. (db, Err (DenomLookupFailed base))),
      md5_hex = (\<lambda>address height coin. address @ ''/'' @ coin_Denom coin),
      OsmosisRewardDistribution = 0\<rparr>"

definition one_reward :: "Rewards list" where
  "one_reward =
     [\<lparr>rw_Address = ''osmo1abc'', rw_EpochBlockHeight = 100,
       rw_Coins = [\<lparr>coin_Denom = ''uosmo'', coin_Amount = 7\<rparr>]\<rparr>]"


section \<open>Gap detection: what the search returns\<close>

lemma wrap_int64_id: "in_int4 x \<Longrightarrow> wrap_int64 x = x"
  by (simp add: in_int4_def wrap_int64_def)

lemma first_by_height_desc_None: "first_by_height_desc bs = None \<longleftrightarrow> bs = []"
  by (induction bs) (auto split: option.splits)

lemma first_by_height_desc_Some:
  "first_by_height_desc bs = Some m \<Longrightarrow> m \<in> set bs \<and> (\<forall>b \<in> set bs. blk_Height b \<le> blk_Height m)"
  by (induction bs arbitrary: m) (fastforce split: option.splits if_splits simp: first_by_height_desc_None)+

lemma GetHighestIndexedBlock_height:
  assumes "in_int4 (int c)"
  shows "blk_Height (GetHighestIndexedBlock s c) = highest_indexed_height s c"
proof (cases "indexed_rows s c = []")
  case True
  then show ?thesis using assms
    by (simp add: GetHighestIndexedBlock_def highest_indexed_height_def indexed_heights_def zero_Block_def)
next
  case False
  then obtain m where m: "first_by_height_desc (indexed_rows s c) = Some m"
    by (cases "first_by_height_desc (indexed_rows s c)") (auto simp: first_by_height_desc_None)
  from first_by_height_desc_Some[OF m]
  have "blk_Height m \<in> indexed_heights s c" "\<forall>h \<in> indexed_heights s c. h \<le> blk_Height m"
    by (auto simp: indexed_heights_def)
  then have "Max (indexed_heights s c) = blk_Height m"
    by (intro Max_eqI) (auto simp: indexed_heights_def)
  with m assms False show ?thesis
    by (simp add: GetHighestIndexedBlock_def highest_indexed_height_def indexed_heights_def)
qed

lemma set_missing_blocks:
  "set (missing_blocks s a b c) = {h \<in> {a..b}. h \<notin> indexed_heights s c}"
  by (auto simp: missing_blocks_def indexed_heights_def indexed_rows_def)

lemma sorted_missing_blocks: "sorted (missing_blocks s a b c)"
  by (simp add: missing_blocks_def sorted_wrt_filter)

lemma missing_blocks_Cons:
  assumes "missing_blocks s a b c = r # rs"
  shows "r \<in> {a..b} \<and> r \<notin> indexed_heights s c \<and> (\<forall>h \<in> {a..b}. h \<notin> indexed_heights s c \<longrightarrow> r \<le> h)"
proof -
  have "r \<in> set (missing_blocks s a b c)" using assms by simp
  then have 1: "r \<in> {a..b} \<and> r \<notin> indexed_heights s c" by (simp add: set_missing_blocks)
  have "\<forall>h \<in> set (missing_blocks s a b c). r \<le> h"
    using sorted_missing_blocks[of s a b c] assms by auto
  with 1 show ?thesis by (simp add: set_missing_blocks)
qed

lemma missing_blocks_Nil:
  "missing_blocks s a b c = [] \<longleftrightarrow> (\<forall>h \<in> {a..b}. h \<in> indexed_heights s c)"
proof -
  have "missing_blocks s a b c = [] \<longleftrightarrow> set (missing_blocks s a b c) = {}" by simp
  also have "\<dots> \<longleftrightarrow> (\<forall>h \<in> {a..b}. h \<in> indexed_heights s c)"
    unfolding set_missing_blocks by blast
  finally show ?thesis .
qed

lemma effective_end_search_end:
  assumes "in_int4 (int c)" "in_int4 (search_end s start e c)"
  shows "effective_end s start e c = search_end s start e c"
  using assms by (auto simp: effective_end_def search_end_def Let_def GetHighestIndexedBlock_height wrap_int64_id)

lemma GetFirstMissingBlockInRange_eq:
  assumes "in_int4 start" and "in_int4 (search_end db start end chainID)"
    and "in_int4 (int chainID)"
  shows "GetFirstMissingBlockInRange db start end chainID =
     (case missing_blocks db start (search_end db start end chainID) chainID of
        [] \<Rightarrow> Ok start
      | r # _ \<Rightarrow> Ok r)"
  using assms by (simp add: GetFirstMissingBlockInRange_def effective_end_search_end)

text \<open>
  Claim C3 (as amended). When \<open>start\<close>, the upper bound of the search and the chain
  identifier fit the 32-bit integer of the query, \<open>GetFirstMissingBlockInRange\<close> returns
  the smallest height of the searched range \<open>[start, search_end]\<close> that has no
  \<open>indexed = true\<close> row of the chain when the range holds such a height, and \<open>start\<close>
  when it holds none. For the indexed heights 1, 2, 4, 5 and the range \<open>[1, 5]\<close> this
  is 3.
\<close>

theorem GetFirstMissingBlockInRange_smallest_or_start:
  assumes "in_int4 start" and "in_int4 (search_end db start end chainID)"
    and "in_int4 (int chainID)"
  shows "\<exists>r. GetFirstMissingBlockInRange db start end chainID = Ok r \<and>
     (if \<exists>h \<in> {start..search_end db start end chainID}. h \<notin> indexed_heights db chainID
      then r \<in> {start..search_end db start end chainID} \<and> r \<notin> indexed_heights db chainID \<and>
           (\<forall>h \<in> {start..search_end db start end chainID}.
               h \<notin> indexed_heights db chainID \<longrightarrow> r \<le> h)
      else r = start)"
proof -
  let ?e = "search_end db start end chainID"
  note eq = GetFirstMissingBlockInRange_eq[OF assms]
  show ?thesis
  proof (cases "missing_blocks db start ?e chainID")
    case Nil
    then have "\<not> (\<exists>h \<in> {start..?e}. h \<notin> indexed_heights db chainID)"
      by (simp add: missing_blocks_Nil)
    moreover have "GetFirstMissingBlockInRange db start end chainID = Ok start"
      using eq Nil by simp
    ultimately show ?thesis by simp
  next
    case (Cons r rs)
    from missing_blocks_Cons[OF Cons]
    have p: "r \<in> {start..?e}" "r \<notin> indexed_heights db chainID"
      "\<forall>h \<in> {start..?e}. h \<notin> indexed_heights db chainID \<longrightarrow> r \<le> h" by auto
    have "GetFirstMissingBlockInRange db start end chainID = Ok r"
      using eq Cons by simp
    with p show ?thesis by auto
  qed
qed



lemma indexed_heights_indexed_store [simp]:
  "indexed_heights (indexed_store c hs) c = set hs"
proof -
  have "map blk_Height (blocks (indexed_store c hs)) = hs"
    by (simp add: indexed_store_def empty_store_def case_prod_unfold comp_def)
  moreover have "indexed_rows (indexed_store c hs) c = blocks (indexed_store c hs)"
    by (auto simp: indexed_rows_def indexed_store_def empty_store_def intro!: filter_True)
  ultimately show ?thesis by (metis indexed_heights_def set_map)
qed

theorem GetFirstMissingBlockInRange_smallest_or_start_witness:
  "in_int4 1 \<and> in_int4 (search_end (indexed_store 1 [1, 2, 4, 5]) 1 5 1) \<and> in_int4 (int 1) \<and>
   GetFirstMissingBlockInRange (indexed_store 1 [1, 2, 4, 5]) 1 5 1 = Ok 3"
proof -
  have se: "search_end (indexed_store 1 [1, 2, 4, 5]) 1 5 1 = 6"
    by (simp add: search_end_def highest_indexed_height_def)
  have h: "in_int4 1" "in_int4 (search_end (indexed_store 1 [1, 2, 4, 5]) 1 5 1)" "in_int4 (int 1)"
    unfolding se by (simp_all add: in_int4_def)
  have three: "(3::int) \<in> {1..6} \<and> (3::int) \<notin> set [1, 2, 4, 5]" by simp
  then have ex: "\<exists>h \<in> {1..6}. h \<notin> set [1, 2, 4, 5::int]" by blast
  from GetFirstMissingBlockInRange_smallest_or_start[OF h]
  obtain r where r: "GetFirstMissingBlockInRange (indexed_store 1 [1, 2, 4, 5]) 1 5 1 = Ok r"
    and c: "if \<exists>h \<in> {1..6}. h \<notin> set [1, 2, 4, 5::int]
            then r \<in> {1..6} \<and> r \<notin> set [1, 2, 4, 5] \<and>
                 (\<forall>h \<in> {1..6}. h \<notin> set [1, 2, 4, 5] \<longrightarrow> r \<le> h)
            else r = 1"
    unfolding se indexed_heights_indexed_store by blast
  from c ex have sm: "r \<in> {1..6} \<and> r \<notin> set [1, 2, 4, 5] \<and>
                 (\<forall>h \<in> {1..6}. h \<notin> set [1, 2, 4, 5] \<longrightarrow> r \<le> h)"
    by (metis (full_types))
  from sm three have "r \<le> 3" by blast
  moreover from sm have "r \<noteq> 1" "r \<noteq> 2" "1 \<le> r" by auto
  ultimately have "r = 3" by arith
  with r h show ?thesis by simp
qed

theorem GetFirstMissingBlockInRange_no_gap_counterexample:
  "GetFirstMissingBlockInRange (indexed_store 1 [1, 2, 3]) 3 3 1 = Ok 3 \<and>
   3 \<in> indexed_heights (indexed_store 1 [1, 2, 3]) 1"
  by (simp add: GetFirstMissingBlockInRange_def effective_end_def GetHighestIndexedBlock_def
      indexed_rows_def indexed_store_def empty_store_def enumerate_eq_zip in_int4_def missing_blocks_def
      indexed_heights_def upto.simps)



section \<open>Running a step of the block write again\<close>

lemma store_le_refl [simp]: "store_le s s"
  by (simp add: store_le_def)

lemma store_le_trans: "store_le s t \<Longrightarrow> store_le t u \<Longrightarrow> store_le s u"
  unfolding store_le_def by (metis prefix_order.order_trans)

lemma FirstOrCreate_prefix:
  "FirstOrCreate c d i rows = (r, rows') \<Longrightarrow> prefix rows rows'"
  by (auto simp: FirstOrCreate_def Let_def split: option.splits)

lemma find_append_Some: "find c xs = Some r \<Longrightarrow> find c (xs @ ys) = Some r"
  by (induction xs) (auto split: if_splits)

lemma find_append_None: "find c xs = None \<Longrightarrow> find c (xs @ ys) = find c ys"
  by (induction xs) (auto split: if_splits)

lemma FirstOrCreate_again:
  assumes "\<And>n. c (d n)" and "FirstOrCreate c d i rows = (r, rows')" and "prefix rows' rows''"
  shows "FirstOrCreate c d i rows'' = (r, rows'')"
proof -
  from assms(3) obtain zs where zs: "rows'' = rows' @ zs" by (auto simp: prefix_def)
  show ?thesis
  proof (cases "find c rows")
    case (Some x)
    with assms(2) have "x = r" "rows' = rows" by (auto simp: FirstOrCreate_def)
    with Some zs show ?thesis by (simp add: FirstOrCreate_def find_append_Some)
  next
    case None
    with assms(2) have r: "r = d (next_id i rows)" "rows' = rows @ [r]"
      by (auto simp: FirstOrCreate_def Let_def)
    have "c r" using r(1) assms(1) by simp
    then have "find c rows'' = Some r" using None r(2) zs by (simp add: find_append_None)
    then show ?thesis by (simp add: FirstOrCreate_def)
  qed
qed

lemma repeatable_v_cong:
  assumes "\<And>s. w s = w' s" and "repeatable_v w'"
  shows "repeatable_v w"
proof -
  have "w = w'" by (rule ext) (rule assms(1))
  with assms(2) show ?thesis by simp
qed

lemma repeatable_cong:
  assumes "\<And>s. f s = f' s" and "repeatable f'"
  shows "repeatable f"
proof -
  have "f = f'" by (rule ext) (rule assms(1))
  with assms(2) show ?thesis by simp
qed

lemma repeatable_v_table:
  assumes c: "\<And>n. c (d n)"
    and le_get: "\<And>s t. store_le s t \<Longrightarrow> prefix (get s) (get t)"
    and le_put: "\<And>s rows. prefix (get s) rows \<Longrightarrow> store_le s (put rows s)"
    and get_put: "\<And>s rows. get (put rows s) = rows"
    and put_get: "\<And>s. put (get s) s = s"
  shows "repeatable_v (\<lambda>s. case FirstOrCreate c d i (get s) of (r, rows) \<Rightarrow> (r, put rows s))"
  unfolding repeatable_v_def
proof (intro allI impI)
  fix s r s'
  assume a: "(case FirstOrCreate c d i (get s) of (r, rows) \<Rightarrow> (r, put rows s)) = (r, s')"
  obtain r0 rows where f0: "FirstOrCreate c d i (get s) = (r0, rows)"
    by (cases "FirstOrCreate c d i (get s)")
  with a have f: "FirstOrCreate c d i (get s) = (r, rows)" and s': "s' = put rows s"
    by simp_all
  have le: "store_le s s'" using FirstOrCreate_prefix[OF f] s' by (simp add: le_put)
  have again: "(case FirstOrCreate c d i (get t) of (r, rows) \<Rightarrow> (r, put rows t)) = (r, t)"
    if t: "store_le s' t" for t
  proof -
    from le_get[OF t] have "prefix rows (get t)" by (simp add: s' get_put)
    from FirstOrCreate_again[of c d, OF c f this] show ?thesis by (simp add: put_get)
  qed
  show "store_le s s' \<and>
    (\<forall>t. store_le s' t \<longrightarrow>
         (case FirstOrCreate c d i (get t) of (r, rows) \<Rightarrow> (r, put rows t)) = (r, t))"
    by (intro conjI allI impI) (rule le, erule again)
qed

lemma repeatable_v_Address: "repeatable_v (FirstOrCreate_Address a)"
  by (rule repeatable_v_cong[OF FirstOrCreate_Address_def], rule repeatable_v_table)
     (simp_all add: store_le_def where_Address_def wh_def)

lemma repeatable_v_Tx: "repeatable_v (FirstOrCreate_Tx x)"
  by (rule repeatable_v_cong[OF FirstOrCreate_Tx_def], rule repeatable_v_table)
     (simp_all add: store_le_def where_Tx_def wh_def)

lemma repeatable_v_Fee: "repeatable_v (FirstOrCreate_Fee x)"
  by (rule repeatable_v_cong[OF FirstOrCreate_Fee_def], rule repeatable_v_table)
     (simp_all add: store_le_def where_Fee_def wh_def)

lemma repeatable_v_MessageType: "repeatable_v (FirstOrCreate_MessageType x)"
  by (rule repeatable_v_cong[OF FirstOrCreate_MessageType_def], rule repeatable_v_table)
     (simp_all add: store_le_def where_MessageType_def wh_def)

lemma repeatable_v_Message: "repeatable_v (FirstOrCreate_Message x)"
  by (rule repeatable_v_cong[OF FirstOrCreate_Message_def], rule repeatable_v_table)
     (simp_all add: store_le_def where_Message_def wh_def)

lemma repeatable_v_TaxableTransaction: "repeatable_v (FirstOrCreate_TaxableTransaction x)"
  by (rule repeatable_v_cong[OF FirstOrCreate_TaxableTransaction_def], rule repeatable_v_table)
     (simp_all add: store_le_def where_TaxableTransaction_def wh_def)

lemma repeatable_v_map:
  assumes w: "repeatable_v w"
  shows "repeatable_v (\<lambda>s. case w s of (r, s') \<Rightarrow> (g r, s'))"
  unfolding repeatable_v_def
proof (intro allI impI)
  fix s y s'
  assume a: "(case w s of (r, s') \<Rightarrow> (g r, s')) = (y, s')"
  obtain r u where ws: "w s = (r, u)" by (cases "w s")
  with a have y: "y = g r" and u: "u = s'" by simp_all
  from w ws u have 1: "store_le s s'" "\<And>t. store_le s' t \<Longrightarrow> w t = (r, t)"
    unfolding repeatable_v_def by blast+
  have "(case w t of (r, s') \<Rightarrow> (g r, s')) = (y, t)" if t: "store_le s' t" for t
    using 1(2)[OF t] y by simp
  then show "store_le s s' \<and> (\<forall>t. store_le s' t \<longrightarrow> (case w t of (r, s') \<Rightarrow> (g r, s')) = (y, t))"
    by (intro conjI allI impI) (rule 1(1))
qed

lemma repeatable_v_optional_address: "repeatable_v (optional_address a)"
proof (cases "a = []")
  case True
  then show ?thesis by (simp add: repeatable_v_def optional_address_def)
next
  case False
  have "repeatable_v (\<lambda>s. case FirstOrCreate_Address a s of (r, s') \<Rightarrow> (Some (adr_ID r), s'))"
    by (rule repeatable_v_map[OF repeatable_v_Address])
  then show ?thesis
    by (rule repeatable_v_cong[rotated]) (simp add: optional_address_def False)
qed

lemma repeatable_bind:
  assumes w: "repeatable_v w" and k: "\<And>r. repeatable (k r)"
  shows "repeatable (\<lambda>s. case w s of (r, s') \<Rightarrow> k r s')"
  unfolding repeatable_def
proof (intro allI impI)
  fix s s''
  assume a: "(case w s of (r, s') \<Rightarrow> k r s') = Ok s''"
  obtain r s' where ws: "w s = (r, s')" by (cases "w s")
  with a have ks: "k r s' = Ok s''" by simp
  from w ws have 1: "store_le s s'" "\<And>t. store_le s' t \<Longrightarrow> w t = (r, t)"
    unfolding repeatable_v_def by blast+
  from k[of r] ks have 2: "store_le s' s''" "\<And>t. store_le s'' t \<Longrightarrow> k r t = Ok t"
    unfolding repeatable_def by blast+
  have "(case w t of (r, s') \<Rightarrow> k r s') = Ok t" if t: "store_le s'' t" for t
  proof -
    from store_le_trans[OF 2(1) t] have "w t = (r, t)" by (rule 1(2))
    with 2(2)[OF t] show ?thesis by simp
  qed
  then show "store_le s s'' \<and> (\<forall>t. store_le s'' t \<longrightarrow> (case w t of (r, s') \<Rightarrow> k r s') = Ok t)"
    by (intro conjI allI impI) (rule store_le_trans[OF 1(1) 2(1)])
qed

lemma repeatable_Ok: "repeatable Ok"
  by (simp add: repeatable_def)

lemma repeatable_seq:
  assumes f: "repeatable f" and g: "repeatable g"
  shows "repeatable (\<lambda>s. case f s of Ok s' \<Rightarrow> g s' | Err e \<Rightarrow> Err e | Fatal \<Rightarrow> Fatal)"
  unfolding repeatable_def
proof (intro allI impI)
  fix s s''
  assume a: "(case f s of Ok s' \<Rightarrow> g s' | Err e \<Rightarrow> Err e | Fatal \<Rightarrow> Fatal) = Ok s''"
  then obtain s' where fs: "f s = Ok s'" and gs: "g s' = Ok s''"
    by (cases "f s") auto
  from f fs have 1: "store_le s s'" "\<And>t. store_le s' t \<Longrightarrow> f t = Ok t"
    unfolding repeatable_def by blast+
  from g gs have 2: "store_le s' s''" "\<And>t. store_le s'' t \<Longrightarrow> g t = Ok t"
    unfolding repeatable_def by blast+
  have "(case f t of Ok s' \<Rightarrow> g s' | Err e \<Rightarrow> Err e | Fatal \<Rightarrow> Fatal) = Ok t"
    if t: "store_le s'' t" for t
  proof -
    from store_le_trans[OF 2(1) t] have "f t = Ok t" by (rule 1(2))
    with 2(2)[OF t] show ?thesis by simp
  qed
  then show "store_le s s'' \<and> (\<forall>t. store_le s'' t \<longrightarrow>
      (case f t of Ok s' \<Rightarrow> g s' | Err e \<Rightarrow> Err e | Fatal \<Rightarrow> Fatal) = Ok t)"
    by (intro conjI allI impI) (rule store_le_trans[OF 1(1) 2(1)])
qed

lemma repeatable_for_each:
  assumes "\<And>x. repeatable (f x)"
  shows "repeatable (for_each f xs)"
proof (induction xs)
  case Nil
  have "for_each f [] = Ok" by (rule ext) simp
  then show ?case by (simp add: repeatable_Ok)
next
  case (Cons x xs)
  have "repeatable (\<lambda>s. case f x s of Ok s' \<Rightarrow> for_each f xs s' | Err e \<Rightarrow> Err e | Fatal \<Rightarrow> Fatal)"
    by (rule repeatable_seq[OF assms Cons])
  then show ?case by (rule repeatable_cong[rotated]) simp
qed

lemma repeatable_index_taxable_tx: "repeatable (index_taxable_tx msgID w)"
  apply (rule repeatable_cong[OF index_taxable_tx_def])
  apply (rule repeatable_bind[OF repeatable_v_optional_address])
  apply (rule repeatable_bind[OF repeatable_v_optional_address])
  apply (rule repeatable_bind[OF repeatable_v_TaxableTransaction])
  apply (rule repeatable_Ok)
  done

lemma repeatable_Fatal: "repeatable (\<lambda>s. Fatal)"
  by (simp add: repeatable_def)

lemma repeatable_Err: "repeatable (\<lambda>s. Err e)"
  by (simp add: repeatable_def)

lemma repeatable_index_message: "repeatable (index_message txID m)"
proof (cases "Message_MessageType m = []")
  case True
  then have "index_message txID m = (\<lambda>s. Fatal)" by (intro ext) (simp add: index_message_def)
  then show ?thesis by (simp add: repeatable_Fatal)
next
  case False
  show ?thesis
    apply (rule repeatable_cong[of _ "\<lambda>s. case FirstOrCreate_MessageType (Message_MessageType m) s of
           (messageType, s1) \<Rightarrow>
        (case FirstOrCreate_Message
                \<lparr>msg_ID = 0, msg_TxID = txID, msg_MessageTypeID = mty_ID messageType,
                 msg_MessageIndex = Message_MessageIndex m\<rparr> s1 of
           (msg, s2) \<Rightarrow> for_each (index_taxable_tx (msg_ID msg)) (TaxableTxs m) s2)"])
     apply (simp add: index_message_def False)
    apply (rule repeatable_bind[OF repeatable_v_MessageType])
    apply (rule repeatable_bind[OF repeatable_v_Message])
    apply (rule repeatable_for_each)
    apply (rule repeatable_index_taxable_tx)
    done
qed

lemma repeatable_index_fee: "repeatable (index_fee txID fee)"
proof -
  consider (empty) "Fee_PayerAddress fee = []"
    | (nodenom) "Fee_PayerAddress fee \<noteq> []"
        "den_Base (Fee_Denomination fee) = [] \<or> den_Symbol (Fee_Denomination fee) = []"
    | (good) "Fee_PayerAddress fee \<noteq> []"
        "\<not> (den_Base (Fee_Denomination fee) = [] \<or> den_Symbol (Fee_Denomination fee) = [])"
    by blast
  then show ?thesis
  proof cases
    case empty
    then show ?thesis by (simp add: repeatable_def index_fee_def)
  next
    case nodenom
    then have "index_fee txID fee s \<noteq> Ok s'" for s s'
      by (cases "FirstOrCreate_Address (Fee_PayerAddress fee) s") (simp add: index_fee_def)
    then show ?thesis by (simp add: repeatable_def)
  next
    case good
    show ?thesis
      apply (rule repeatable_cong[of _ "\<lambda>s. case FirstOrCreate_Address (Fee_PayerAddress fee) s of
                 (payer, s1) \<Rightarrow>
            (case FirstOrCreate_Fee
                    \<lparr>fee_ID = 0, fee_TxID = txID, fee_Amount = Fee_Amount fee,
                     fee_DenominationID = den_ID (Fee_Denomination fee),
                     fee_PayerAddressID = adr_ID payer\<rparr> s1 of
               (thisFee, s2) \<Rightarrow> Ok s2)"])
      subgoal for s using good
        by (cases "FirstOrCreate_Address (Fee_PayerAddress fee) s") (simp add: index_fee_def)
      apply (rule repeatable_bind[OF repeatable_v_Address])
      apply (rule repeatable_bind[OF repeatable_v_Fee])
      apply (rule repeatable_Ok)
      done
  qed
qed

lemma repeatable_index_tx: "repeatable (index_tx blockID w)"
  apply (rule repeatable_cong[OF index_tx_def])
  apply (rule repeatable_bind[OF repeatable_v_optional_address])
  apply (rule repeatable_bind[OF repeatable_v_Tx])
  apply (rule repeatable_seq)
   apply (rule repeatable_for_each)
   apply (rule repeatable_index_fee)
  apply (rule repeatable_for_each)
  apply (rule repeatable_index_message)
  done

section \<open>IndexNewBlock: idempotence and the failed-block row\<close>

lemma next_id_greater: "x \<in> set rows \<Longrightarrow> ident x < next_id ident rows"
proof -
  have "\<And>a. a \<le> fold max ys a \<and> (\<forall>y \<in> set ys. y \<le> fold max ys a)" for ys :: "nat list"
  proof (induction ys)
    case Nil
    show ?case by simp
  next
    case (Cons y ys)
    from Cons[of "max y a"] show ?case by (auto simp: max_def split: if_splits)
  qed
  then have "\<forall>y \<in> set (map ident rows). y \<le> fold max (map ident rows) 0" by blast
  moreover assume "x \<in> set rows"
  ultimately show ?thesis by (auto simp: next_id_def less_Suc_eq_le)
qed

lemma find_map_invariant:
  assumes "\<And>x. P (g x) = P x"
  shows "find P (map g xs) = map_option g (find P xs)"
  by (induction xs) (simp_all add: assms)

lemma where_Block_assign [simp]: "where_Block h c (assign_Block t x) = where_Block h c x"
  by (simp add: where_Block_def assign_Block_def)

lemma assign_Block_idem [simp]: "assign_Block t (assign_Block t x) = assign_Block t x"
  by (simp add: assign_Block_def)

lemma blk_ID_assign [simp]: "blk_ID (assign_Block t x) = blk_ID x"
  by (simp add: assign_Block_def)

lemma FirstOrCreate_Block_Assign_again:
  assumes f: "FirstOrCreate_Block_Assign h t c s = (b, s1)" and u: "blocks u = blocks s1"
  shows "FirstOrCreate_Block_Assign h t c u = (b, u)"
proof (cases "find (where_Block h c) (blocks s)")
  case (Some r)
  let ?g = "\<lambda>x. if blk_ID x = blk_ID r then assign_Block t x else x"
  from f Some have b: "b = assign_Block t r" and s1: "blocks s1 = map ?g (blocks s)"
    by (auto simp: FirstOrCreate_Block_Assign_def)
  have "find (where_Block h c) (map ?g (blocks s)) = map_option ?g (find (where_Block h c) (blocks s))"
    by (rule find_map_invariant) simp
  then have fu: "find (where_Block h c) (blocks u) = Some b"
    by (simp add: u s1 Some b)
  have "map (\<lambda>x. if blk_ID x = blk_ID b then assign_Block t x else x) (blocks u) = blocks u"
    by (simp add: u s1 b)
  with fu show ?thesis by (simp add: FirstOrCreate_Block_Assign_def b)
next
  case None
  let ?r = "\<lparr>blk_ID = next_id blk_ID (blocks s), blk_Height = h, blk_TimeStamp = t,
             blk_Indexed = True, blk_BlockchainID = c\<rparr>"
  from f None have b: "b = ?r" and s1: "blocks s1 = blocks s @ [?r]"
    by (auto simp: FirstOrCreate_Block_Assign_def Let_def)
  have "where_Block h c ?r" by (simp add: where_Block_def wh_def)
  then have fu: "find (where_Block h c) (blocks u) = Some b"
    using None by (simp add: u s1 b find_append_None)
  have ab: "assign_Block t b = b" by (simp add: b assign_Block_def)
  have "\<forall>x \<in> set (blocks s). blk_ID x \<noteq> blk_ID b"
    using next_id_greater[of _ "blocks s" blk_ID] by (fastforce simp: b)
  then have "map (\<lambda>x. if blk_ID x = blk_ID b then assign_Block t x else x) (blocks s) = blocks s"
    by (simp add: map_idI)
  then have "map (\<lambda>x. if blk_ID x = blk_ID b then assign_Block t x else x) (blocks u) = blocks u"
    using ab by (simp add: u s1 b[symmetric])
  with fu ab show ?thesis by (simp add: FirstOrCreate_Block_Assign_def)
qed

lemma FirstOrCreate_Block_Assign_failed_blocks:
  "FirstOrCreate_Block_Assign h t c s = (b, s1) \<Longrightarrow> failed_blocks s1 = failed_blocks s"
  by (auto simp: FirstOrCreate_Block_Assign_def Let_def split: option.splits)

lemma Transaction_Ok: "Transaction body s = (s', Ok u) \<longleftrightarrow> body s = Ok s'"
  by (auto simp: Transaction_def split: result.splits)

lemma Transaction_not_Ok: "Transaction body s = (s', r) \<Longrightarrow> r \<noteq> Ok () \<Longrightarrow> s' = s"
  by (auto simp: Transaction_def split: result.splits)

lemma IndexNewBlock_body_Ok:
  assumes "IndexNewBlock_body h t txs c db = Ok db'"
  shows "\<exists>b s1. FirstOrCreate_Block_Assign h t c (delete_failed_block h c db) = (b, s1) \<and>
           for_each (index_tx (blk_ID b)) txs s1 = Ok db' \<and> store_le s1 db'"
proof -
  obtain b s1 where f: "FirstOrCreate_Block_Assign h t c (delete_failed_block h c db) = (b, s1)"
    by (cases "FirstOrCreate_Block_Assign h t c (delete_failed_block h c db)")
  with assms have l: "for_each (index_tx (blk_ID b)) txs s1 = Ok db'"
    by (simp add: IndexNewBlock_body_def)
  have "repeatable (for_each (index_tx (blk_ID b)) txs)"
    by (rule repeatable_for_each) (rule repeatable_index_tx)
  with l have "store_le s1 db'" unfolding repeatable_def by blast
  with f l show ?thesis by blast
qed

lemma IndexNewBlock_failed_blocks:
  assumes "IndexNewBlock_body h t txs c db = Ok db'"
  shows "failed_blocks db' =
     filter (\<lambda>fb. \<not> (fb_Height fb = h \<and> fb_BlockchainID fb = c)) (failed_blocks db)"
proof -
  from IndexNewBlock_body_Ok[OF assms] obtain b s1 where
    f: "FirstOrCreate_Block_Assign h t c (delete_failed_block h c db) = (b, s1)"
    and le: "store_le s1 db'" by blast
  from le have "failed_blocks db' = failed_blocks s1" by (simp add: store_le_def)
  also have "\<dots> = failed_blocks (delete_failed_block h c db)"
    by (rule FirstOrCreate_Block_Assign_failed_blocks[OF f])
  finally show ?thesis by (simp add: delete_failed_block_def)
qed

text \<open>
  Claim C2. When a call of \<open>IndexNewBlock\<close> succeeds, a second call with the same
  input on the resulting store succeeds as well and leaves the store as it is: every
  table, so in particular Block, Tx, Address, Fee, Message and TaxableTransaction, keeps
  exactly its rows.
\<close>

theorem IndexNewBlock_idempotent:
  assumes "IndexNewBlock db blockHeight blockTime txs dbChainID = (db', Ok ())"
  shows "IndexNewBlock db' blockHeight blockTime txs dbChainID = (db', Ok ())"
proof -
  from assms have body: "IndexNewBlock_body blockHeight blockTime txs dbChainID db = Ok db'"
    by (simp add: IndexNewBlock_def Transaction_Ok)
  from IndexNewBlock_body_Ok[OF body] obtain b s1 where
    f: "FirstOrCreate_Block_Assign blockHeight blockTime dbChainID
          (delete_failed_block blockHeight dbChainID db) = (b, s1)"
    and l: "for_each (index_tx (blk_ID b)) txs s1 = Ok db'"
    and le: "store_le s1 db'" by blast
  have "failed_blocks (delete_failed_block blockHeight dbChainID db') = failed_blocks db'"
    by (simp add: IndexNewBlock_failed_blocks[OF body] delete_failed_block_def)
  then have d: "delete_failed_block blockHeight dbChainID db' = db'"
    by (simp add: delete_failed_block_def)
  from le have "blocks db' = blocks s1" by (simp add: store_le_def)
  from FirstOrCreate_Block_Assign_again[OF f this]
  have f': "FirstOrCreate_Block_Assign blockHeight blockTime dbChainID db' = (b, db')" .
  have "repeatable (for_each (index_tx (blk_ID b)) txs)"
    by (rule repeatable_for_each) (rule repeatable_index_tx)
  with l have "for_each (index_tx (blk_ID b)) txs db' = Ok db'"
    unfolding repeatable_def by (meson store_le_refl)
  with d f' have "IndexNewBlock_body blockHeight blockTime txs dbChainID db' = Ok db'"
    by (simp add: IndexNewBlock_body_def)
  then show ?thesis by (simp add: IndexNewBlock_def Transaction_Ok)
qed

text \<open>
  Claim C9. After a successful \<open>IndexNewBlock\<close> for a height and a chain the store has
  no \<open>FailedBlock\<close> row for them: exactly the rows of that height and chain are
  deleted. The deletion is part of the transaction: when the call does not succeed, the
  store, and with it every failed-block row, is as before.
\<close>

theorem IndexNewBlock_clears_failed_block:
  assumes "IndexNewBlock db blockHeight blockTime txs dbChainID = (db', r)"
  shows "(r = Ok () \<longrightarrow>
            failed_blocks db' =
              filter (\<lambda>fb. \<not> (fb_Height fb = blockHeight \<and> fb_BlockchainID fb = dbChainID))
                (failed_blocks db) \<and>
            \<not> (\<exists>fb \<in> set (failed_blocks db').
                  fb_Height fb = blockHeight \<and> fb_BlockchainID fb = dbChainID)) \<and>
         (r \<noteq> Ok () \<longrightarrow> db' = db)"
proof (intro conjI impI)
  assume "r = Ok ()"
  with assms have body: "IndexNewBlock_body blockHeight blockTime txs dbChainID db = Ok db'"
    by (simp add: IndexNewBlock_def Transaction_Ok)
  from IndexNewBlock_failed_blocks[OF body]
  show fb: "failed_blocks db' =
      filter (\<lambda>fb. \<not> (fb_Height fb = blockHeight \<and> fb_BlockchainID fb = dbChainID))
        (failed_blocks db)" .
  show "\<not> (\<exists>fb \<in> set (failed_blocks db').
                  fb_Height fb = blockHeight \<and> fb_BlockchainID fb = dbChainID)"
    unfolding fb by auto
next
  assume "r \<noteq> Ok ()"
  with assms show "db' = db" unfolding IndexNewBlock_def by (rule Transaction_not_Ok)
qed

section \<open>IndexNewBlock: empty payer address and empty message type\<close>

lemma for_each_append:
  "for_each f (xs @ ys) s =
     (case for_each f xs s of Ok s' \<Rightarrow> for_each f ys s' | Err e \<Rightarrow> Err e | Fatal \<Rightarrow> Fatal)"
  by (induction xs arbitrary: s) (simp_all split: result.splits)

lemma for_each_not_Fatal:
  assumes "\<And>x s. x \<in> set xs \<Longrightarrow> f x s \<noteq> Fatal"
  shows "for_each f xs s \<noteq> Fatal"
  using assms by (induction xs arbitrary: s) (auto split: result.splits)

lemma for_each_all_Ok:
  assumes "\<And>x s. x \<in> set xs \<Longrightarrow> \<exists>s'. f x s = Ok s'"
  shows "\<exists>s'. for_each f xs s = Ok s'"
  using assms
proof (induction xs arbitrary: s)
  case Nil
  show ?case by simp
next
  case (Cons x xs)
  from Cons.prems[of x s] obtain s1 where "f x s = Ok s1" by auto
  moreover from Cons.IH[of s1] Cons.prems obtain s2 where "for_each f xs s1 = Ok s2" by auto
  ultimately show ?case by simp
qed

lemma for_each_reaches_Err:
  assumes "\<And>x s. x \<in> set xs \<Longrightarrow> f x s \<noteq> Fatal"
    and "y \<in> set xs" and "\<And>s. \<exists>e. f y s = Err e"
  shows "\<exists>e. for_each f xs s = Err e"
  using assms
proof (induction xs arbitrary: s)
  case Nil
  then show ?case by simp
next
  case (Cons x xs)
  show ?case
  proof (cases "f x s")
    case (Ok s1)
    have "x \<noteq> y" using Ok Cons.prems(3)[of s] by auto
    with Cons.prems(2) have "y \<in> set xs" by simp
    from Cons.IH[OF _ this Cons.prems(3)] Cons.prems(1) Ok show ?thesis by simp
  next
    case (Err e)
    then show ?thesis by simp
  next
    case Fatal
    with Cons.prems(1)[of x s] show ?thesis by simp
  qed
qed

lemma for_each_reaches_Fatal:
  assumes "\<And>x s. x \<in> set xs \<Longrightarrow> (\<exists>s'. f x s = Ok s') \<or> f x s = Fatal"
    and "y \<in> set xs" and "\<And>s. f y s = Fatal"
  shows "for_each f xs s = Fatal"
  using assms
proof (induction xs arbitrary: s)
  case Nil
  then show ?case by simp
next
  case (Cons x xs)
  show ?case
  proof (cases "f x s")
    case (Ok s1)
    have "x \<noteq> y" using Ok Cons.prems(3)[of s] by auto
    with Cons.prems(2) have "y \<in> set xs" by simp
    from Cons.IH[OF _ this Cons.prems(3)] Cons.prems(1) Ok show ?thesis by simp
  next
    case (Err e)
    with Cons.prems(1)[of x s] show ?thesis by auto
  next
    case Fatal
    then show ?thesis by simp
  qed
qed

lemma index_taxable_tx_Ok: "\<exists>s'. index_taxable_tx msgID w s = Ok s'"
  by (simp add: index_taxable_tx_def split: prod.splits)

lemma index_message_empty: "Message_MessageType m = [] \<Longrightarrow> index_message txID m s = Fatal"
  by (simp add: index_message_def)

lemma index_message_Ok:
  "Message_MessageType m \<noteq> [] \<Longrightarrow> \<exists>s'. index_message txID m s = Ok s'"
  by (simp add: index_message_def for_each_all_Ok index_taxable_tx_Ok split: prod.splits)

lemma index_fee_empty_payer:
  "Fee_PayerAddress fee = [] \<Longrightarrow> index_fee txID fee s = Err FeeEmptyPayerAddress"
  by (simp add: index_fee_def)

lemma index_fee_not_Fatal: "index_fee txID fee s \<noteq> Fatal"
  by (simp add: index_fee_def split: prod.splits)

lemma index_fee_Ok: "fee_valid fee \<Longrightarrow> \<exists>s'. index_fee txID fee s = Ok s'"
  by (simp add: index_fee_def fee_valid_def split: prod.splits)

lemma index_tx_empty_payer:
  assumes "fee \<in> set (Tx_Fees w)" and "Fee_PayerAddress fee = []"
  shows "\<exists>e. index_tx blockID w s = Err e"
proof -
  obtain a s1 where 1: "optional_address (SignerAddress w) s = (a, s1)"
    by (cases "optional_address (SignerAddress w) s")
  obtain x s2 where 2: "FirstOrCreate_Tx
             \<lparr>tx_ID = 0, tx_Hash = Tx_Hash w, tx_Code = Tx_Code w,
              tx_BlockID = blockID, tx_SignerAddressID = a\<rparr> s1 = (x, s2)"
    by (cases "FirstOrCreate_Tx
             \<lparr>tx_ID = 0, tx_Hash = Tx_Hash w, tx_Code = Tx_Code w,
              tx_BlockID = blockID, tx_SignerAddressID = a\<rparr> s1")
  have "\<exists>e. for_each (index_fee (tx_ID x)) (Tx_Fees w) s2 = Err e"
    by (rule for_each_reaches_Err[OF index_fee_not_Fatal assms(1)])
       (simp add: index_fee_empty_payer assms(2))
  with 1 2 show ?thesis by (auto simp: index_tx_def)
qed

lemma index_tx_not_Fatal:
  assumes "\<forall>m \<in> set (Messages w). Message_MessageType m \<noteq> []"
  shows "index_tx blockID w s \<noteq> Fatal"
proof -
  have m: "for_each (index_message t) (Messages w) u \<noteq> Fatal" for t u
  proof (rule for_each_not_Fatal)
    fix x v assume "x \<in> set (Messages w)"
    with assms have "Message_MessageType x \<noteq> []" by blast
    from index_message_Ok[OF this, of t v] show "index_message t x v \<noteq> Fatal" by auto
  qed
  have f: "for_each (index_fee t) (Tx_Fees w) u \<noteq> Fatal" for t u
    by (rule for_each_not_Fatal) (rule index_fee_not_Fatal)
  show ?thesis
    using m f by (auto simp: index_tx_def split: prod.splits result.splits)
qed

lemma index_tx_valid_fees:
  assumes "\<forall>fee \<in> set (Tx_Fees w). fee_valid fee"
  shows "(if \<exists>m \<in> set (Messages w). Message_MessageType m = []
          then index_tx blockID w s = Fatal else (\<exists>s'. index_tx blockID w s = Ok s'))"
proof -
  obtain a s1 where 1: "optional_address (SignerAddress w) s = (a, s1)"
    by (cases "optional_address (SignerAddress w) s")
  obtain x s2 where 2: "FirstOrCreate_Tx
             \<lparr>tx_ID = 0, tx_Hash = Tx_Hash w, tx_Code = Tx_Code w,
              tx_BlockID = blockID, tx_SignerAddressID = a\<rparr> s1 = (x, s2)"
    by (cases "FirstOrCreate_Tx
             \<lparr>tx_ID = 0, tx_Hash = Tx_Hash w, tx_Code = Tx_Code w,
              tx_BlockID = blockID, tx_SignerAddressID = a\<rparr> s1")
  obtain s3 where 3: "for_each (index_fee (tx_ID x)) (Tx_Fees w) s2 = Ok s3"
    using for_each_all_Ok[of "Tx_Fees w" "index_fee (tx_ID x)" s2] assms index_fee_Ok by blast
  have eq: "index_tx blockID w s = for_each (index_message (tx_ID x)) (Messages w) s3"
    using 1 2 3 by (simp add: index_tx_def)
  show ?thesis
  proof (cases "\<exists>m \<in> set (Messages w). Message_MessageType m = []")
    case True
    then obtain m where m: "m \<in> set (Messages w)" "Message_MessageType m = []" by blast
    have "for_each (index_message (tx_ID x)) (Messages w) s3 = Fatal"
    proof (rule for_each_reaches_Fatal[OF _ m(1)])
      fix y u
      show "(\<exists>s'. index_message (tx_ID x) y u = Ok s') \<or> index_message (tx_ID x) y u = Fatal"
        using index_message_Ok[of y] index_message_empty[of y] by blast
    next
      fix u show "index_message (tx_ID x) m u = Fatal" by (rule index_message_empty[OF m(2)])
    qed
    with True eq show ?thesis by simp
  next
    case False
    then have "\<exists>s'. for_each (index_message (tx_ID x)) (Messages w) s3 = Ok s'"
      by (intro for_each_all_Ok index_message_Ok) blast
    with False eq show ?thesis by simp
  qed
qed

lemma for_each_not_Ok:
  assumes "y \<in> set xs" and "\<And>s s'. f y s \<noteq> Ok s'"
  shows "for_each f xs s \<noteq> Ok s'"
  using assms(1)
proof (induction xs arbitrary: s)
  case Nil
  then show ?case by simp
next
  case (Cons x xs)
  show ?case
  proof (cases "f x s")
    case (Ok s1)
    with assms(2) have "x \<noteq> y" by auto
    with Cons.prems have "y \<in> set xs" by simp
    from Cons.IH[OF this] Ok show ?thesis by simp
  qed simp_all
qed

lemma index_tx_empty_message_type_not_Ok:
  assumes "m \<in> set (Messages w)" and "Message_MessageType m = []"
  shows "index_tx blockID w s \<noteq> Ok s'"
proof -
  have "for_each (index_message t) (Messages w) u \<noteq> Ok s'" for t u
    by (rule for_each_not_Ok[OF assms(1)]) (simp add: index_message_empty assms(2))
  then show ?thesis
    by (auto simp: index_tx_def split: prod.splits result.splits)
qed

lemma IndexNewBlock_not_Ok:
  assumes "w \<in> set txs" and "\<And>b s s'. index_tx b w s \<noteq> Ok s'"
  shows "\<exists>r. IndexNewBlock db blockHeight blockTime txs dbChainID = (db, r) \<and> r \<noteq> Ok ()"
proof -
  obtain b s1 where f: "FirstOrCreate_Block_Assign blockHeight blockTime dbChainID
      (delete_failed_block blockHeight dbChainID db) = (b, s1)"
    by (cases "FirstOrCreate_Block_Assign blockHeight blockTime dbChainID
      (delete_failed_block blockHeight dbChainID db)")
  have "for_each (index_tx (blk_ID b)) txs s1 \<noteq> Ok s'" for s'
    by (rule for_each_not_Ok[OF assms(1)]) (rule assms(2))
  then have n: "IndexNewBlock_body blockHeight blockTime txs dbChainID db \<noteq> Ok s'" for s'
    using f by (simp add: IndexNewBlock_body_def)
  show ?thesis
  proof (cases "IndexNewBlock_body blockHeight blockTime txs dbChainID db")
    case (Ok s')
    with n[of s'] show ?thesis by simp
  qed (simp_all add: IndexNewBlock_def Transaction_def)
qed

text \<open>
  Claim C1 (as amended). When a transaction of the block has a fee with an empty payer
  address, \<open>IndexNewBlock\<close> does not succeed and the store is exactly as before the
  call: no row of the block persists. It returns an error when no message of the
  transactions before that one has an empty message type (such a message ends the
  process first).
\<close>

theorem IndexNewBlock_empty_payer_rolls_back:
  assumes "txs = pre @ transaction # post"
    and "fee \<in> set (Tx_Fees transaction)" and "Fee_PayerAddress fee = []"
  shows "(\<exists>r. IndexNewBlock db blockHeight blockTime txs dbChainID = (db, r) \<and> r \<noteq> Ok ()) \<and>
         ((\<forall>w \<in> set pre. \<forall>m \<in> set (Messages w). Message_MessageType m \<noteq> []) \<longrightarrow>
            (\<exists>e. IndexNewBlock db blockHeight blockTime txs dbChainID = (db, Err e)))"
proof (intro conjI impI)
  have "transaction \<in> set txs" by (simp add: assms(1))
  moreover have "index_tx b transaction s \<noteq> Ok s'" for b s s'
    using index_tx_empty_payer[OF assms(2,3), of b s] by auto
  ultimately show "\<exists>r. IndexNewBlock db blockHeight blockTime txs dbChainID = (db, r) \<and> r \<noteq> Ok ()"
    by (rule IndexNewBlock_not_Ok)
next
  assume msgs: "\<forall>w \<in> set pre. \<forall>m \<in> set (Messages w). Message_MessageType m \<noteq> []"
  obtain b s1 where f: "FirstOrCreate_Block_Assign blockHeight blockTime dbChainID
      (delete_failed_block blockHeight dbChainID db) = (b, s1)"
    by (cases "FirstOrCreate_Block_Assign blockHeight blockTime dbChainID
      (delete_failed_block blockHeight dbChainID db)")
  have pre: "for_each (index_tx (blk_ID b)) pre s1 \<noteq> Fatal"
    by (rule for_each_not_Fatal) (use msgs index_tx_not_Fatal in blast)
  have "\<exists>e. for_each (index_tx (blk_ID b)) (pre @ transaction # post) s1 = Err e"
  proof (cases "for_each (index_tx (blk_ID b)) pre s1")
    case (Ok s2)
    from index_tx_empty_payer[OF assms(2,3)] obtain e where
      "index_tx (blk_ID b) transaction s2 = Err e" by blast
    with Ok show ?thesis by (simp add: for_each_append)
  next
    case (Err e)
    then show ?thesis by (simp add: for_each_append)
  next
    case Fatal
    with pre show ?thesis by simp
  qed
  then obtain e where "IndexNewBlock_body blockHeight blockTime txs dbChainID db = Err e"
    using f assms(1) by (auto simp: IndexNewBlock_body_def)
  then show "\<exists>e. IndexNewBlock db blockHeight blockTime txs dbChainID = (db, Err e)"
    by (simp add: IndexNewBlock_def Transaction_def)
qed

text \<open>
  Claim C5 (as amended). When a message of the block has an empty message type,
  \<open>IndexNewBlock\<close> does not succeed and the store is as before. When moreover every fee
  of the block has a payer address and a resolved denomination, the call does not
  return: the process is terminated by \<open>config.Log.Fatal\<close>.
\<close>

theorem IndexNewBlock_empty_message_type_is_fatal:
  assumes "transaction \<in> set txs" and "message \<in> set (Messages transaction)"
    and "Message_MessageType message = []"
  shows "(\<exists>r. IndexNewBlock db blockHeight blockTime txs dbChainID = (db, r) \<and> r \<noteq> Ok ()) \<and>
         ((\<forall>w \<in> set txs. \<forall>fee \<in> set (Tx_Fees w). fee_valid fee) \<longrightarrow>
            IndexNewBlock db blockHeight blockTime txs dbChainID = (db, Fatal))"
proof (intro conjI impI)
  have "index_tx b transaction s \<noteq> Ok s'" for b s s'
    by (rule index_tx_empty_message_type_not_Ok[OF assms(2,3)])
  with assms(1)
  show "\<exists>r. IndexNewBlock db blockHeight blockTime txs dbChainID = (db, r) \<and> r \<noteq> Ok ()"
    by (rule IndexNewBlock_not_Ok)
next
  assume fees: "\<forall>w \<in> set txs. \<forall>fee \<in> set (Tx_Fees w). fee_valid fee"
  obtain b s1 where f: "FirstOrCreate_Block_Assign blockHeight blockTime dbChainID
      (delete_failed_block blockHeight dbChainID db) = (b, s1)"
    by (cases "FirstOrCreate_Block_Assign blockHeight blockTime dbChainID
      (delete_failed_block blockHeight dbChainID db)")
  have "for_each (index_tx (blk_ID b)) txs s1 = Fatal"
  proof (rule for_each_reaches_Fatal[OF _ assms(1)])
    fix w u assume "w \<in> set txs"
    with fees have "\<forall>fee \<in> set (Tx_Fees w). fee_valid fee" by blast
    from index_tx_valid_fees[OF this, of "blk_ID b" u]
    show "(\<exists>s'. index_tx (blk_ID b) w u = Ok s') \<or> index_tx (blk_ID b) w u = Fatal"
      by (auto split: if_splits)
  next
    fix u
    from fees assms(1) have "\<forall>fee \<in> set (Tx_Fees transaction). fee_valid fee" by blast
    from index_tx_valid_fees[OF this, of "blk_ID b" u] assms(2,3)
    show "index_tx (blk_ID b) transaction u = Fatal" by (auto split: if_splits)
  qed
  with f have "IndexNewBlock_body blockHeight blockTime txs dbChainID db = Fatal"
    by (simp add: IndexNewBlock_body_def)
  then show "IndexNewBlock db blockHeight blockTime txs dbChainID = (db, Fatal)"
    by (simp add: IndexNewBlock_def Transaction_def)
qed

section \<open>IndexNewBlock on the example inputs\<close>

theorem IndexNewBlock_idempotent_witness:
  "IndexNewBlock empty_store 100 1700000000 [send_tx] 1 = (store_after_send_tx, Ok ()) \<and>
   IndexNewBlock store_after_send_tx 100 1700000000 [send_tx] 1 = (store_after_send_tx, Ok ())"
proof -
  have h: "IndexNewBlock empty_store 100 1700000000 [send_tx] 1 = (store_after_send_tx, Ok ())"
    by code_simp
  from IndexNewBlock_idempotent[OF h] h show ?thesis by simp
qed

theorem IndexNewBlock_clears_failed_block_witness:
  "snd (IndexNewBlock store_failed_100_101 100 1700000000 [send_tx] 1) = Ok () \<and>
   failed_blocks (fst (IndexNewBlock store_failed_100_101 100 1700000000 [send_tx] 1)) =
     [\<lparr>fb_ID = 2, fb_Height = 101, fb_BlockchainID = 1\<rparr>] \<and>
   IndexNewBlock store_failed_100_101 100 1700000000 [tx_empty_payer] 1 =
     (store_failed_100_101, Err FeeEmptyPayerAddress)"
proof -
  let ?ok = "IndexNewBlock store_failed_100_101 100 1700000000 [send_tx] 1"
  let ?bad = "IndexNewBlock store_failed_100_101 100 1700000000 [tx_empty_payer] 1"
  have ok: "snd ?ok = Ok ()" by code_simp
  have bad: "snd ?bad = Err FeeEmptyPayerAddress" by code_simp
  have "?ok = (fst ?ok, snd ?ok)" by simp
  from IndexNewBlock_clears_failed_block[OF this] ok
  have 1: "failed_blocks (fst ?ok) = [\<lparr>fb_ID = 2, fb_Height = 101, fb_BlockchainID = 1\<rparr>]"
    by (simp add: store_failed_100_101_def empty_store_def)
  have "?bad = (fst ?bad, snd ?bad)" by simp
  from IndexNewBlock_clears_failed_block[OF this] bad
  have "fst ?bad = store_failed_100_101" by simp
  with bad have 2: "?bad = (store_failed_100_101, Err FeeEmptyPayerAddress)"
    by (metis prod.collapse)
  from ok 1 2 show ?thesis by blast
qed

theorem IndexNewBlock_empty_payer_rolls_back_witness:
  "IndexNewBlock store_failed_100_101 100 1700000000 [send_tx, tx_empty_payer] 1 =
     (store_failed_100_101, Err FeeEmptyPayerAddress)"
proof -
  have 1: "[send_tx, tx_empty_payer] = [send_tx] @ tx_empty_payer # []" by simp
  have 2: "\<lparr>Fee_Amount = 500, Fee_Denomination = uatom, Fee_PayerAddress = []\<rparr>
             \<in> set (Tx_Fees tx_empty_payer)"
    by (simp add: tx_empty_payer_def)
  have 3: "Fee_PayerAddress \<lparr>Fee_Amount = 500, Fee_Denomination = uatom, Fee_PayerAddress = []\<rparr> = []"
    by simp
  have 4: "\<forall>w \<in> set [send_tx]. \<forall>m \<in> set (Messages w). Message_MessageType m \<noteq> []"
    by (simp add: send_tx_def)
  from IndexNewBlock_empty_payer_rolls_back[OF 1 2 3, of store_failed_100_101 100 1700000000 1] 4
  obtain e where e: "IndexNewBlock store_failed_100_101 100 1700000000 [send_tx, tx_empty_payer] 1 =
     (store_failed_100_101, Err e)" by blast
  have "snd (IndexNewBlock store_failed_100_101 100 1700000000 [send_tx, tx_empty_payer] 1) =
     Err FeeEmptyPayerAddress" by code_simp
  with e show ?thesis by simp
qed

theorem IndexNewBlock_empty_payer_after_empty_message_type_counterexample:
  "Fee_PayerAddress (hd (Tx_Fees tx_empty_payer)) = [] \<and>
   IndexNewBlock empty_store 100 1700000000 [tx_empty_message_type, tx_empty_payer] 1 =
     (empty_store, Fatal)"
  by code_simp

theorem IndexNewBlock_empty_message_type_is_fatal_witness:
  "IndexNewBlock empty_store 100 1700000000 [send_tx, tx_empty_message_type] 1 =
     (empty_store, Fatal)"
proof -
  have 1: "\<forall>w \<in> set [send_tx, tx_empty_message_type]. \<forall>fee \<in> set (Tx_Fees w). fee_valid fee"
    by (simp add: send_tx_def tx_empty_message_type_def fee_valid_def uatom_def)
  have 2: "tx_empty_message_type \<in> set [send_tx, tx_empty_message_type]" by simp
  have 3: "\<lparr>Message_MessageType = [], Message_MessageIndex = 0, TaxableTxs = []\<rparr>
             \<in> set (Messages tx_empty_message_type)"
    by (simp add: tx_empty_message_type_def)
  have 4: "Message_MessageType
             \<lparr>Message_MessageType = [], Message_MessageIndex = 0, TaxableTxs = []\<rparr> = []"
    by simp
  from IndexNewBlock_empty_message_type_is_fatal[OF 2 3 4, of empty_store 100 1700000000 1] 1
  show ?thesis by blast
qed

theorem IndexNewBlock_empty_message_type_counterexample:
  "Message_MessageType (hd (Messages tx_empty_message_type)) = [] \<and>
   IndexNewBlock empty_store 100 1700000000 [tx_empty_message_type] 1 = (empty_store, Fatal)"
  by code_simp

section \<open>createTaxableEvents: what a batch insertion stores\<close>

lemma store_ext_refl [simp]: "store_ext s s"
  by (simp add: store_ext_def)












lemma eventExists_cong:
  "taxable_events s' = taxable_events s \<Longrightarrow> eventExists s' e = eventExists s e"
  by (simp add: eventExists_def)








section \<open>The batch loop, event addresses and the chain client\<close>




lemma batch_slice_final:
  assumes "i < length dbEvents" and "length dbEvents < i + batchSize"
  shows "batch_slice dbEvents i = butlast (drop i dbEvents)"
  using assms by (simp add: batch_slice_def batchEnd_def butlast_conv_take)

lemma createTaxableEvents_Nil: "createTaxableEvents db [] = (db, Ok ())"
  by (simp add: createTaxableEvents_def Transaction_def)

lemma insert_batches_singleton: "insert_batches db [event] 0 = (db, Ok ())"
proof -
  have "batch_slice [event] 0 = []" by (simp add: batch_slice_def batchEnd_def batchSize_def)
  then have "process_batch db [event] 0 = (db, Ok ())"
    by (simp add: process_batch_def createTaxableEvents_Nil)
  moreover have "insert_batches db [event] (0 + batchSize) = (db, Ok ())"
    by (subst insert_batches.simps) (simp add: batchSize_def)
  ultimately show ?thesis by (subst insert_batches.simps) simp
qed

text \<open>
  Claim C6 (the code at the failing input). One reward record with one coin gives one
  candidate. The only batch ends at \<open>len(dbEvents) - 1 = 0\<close>, so \<open>createTaxableEvents\<close> gets
  the empty slice: the call returns without an error and the store has no row for the
  candidate.
\<close>

theorem IndexOsmoRewards_single_candidate_not_stored:
  "IndexOsmoRewards sample_environment empty_store ''osmosis-1'' ''osmosis'' one_reward =
     (empty_store, Ok ()) \<and>
   reward_events sample_environment ''osmosis-1'' ''osmosis'' one_reward empty_store [] =
     (empty_store, Ok [\<lparr>evt_Source = 0, evt_Amount = 7, evt_EventHash = ''osmo1abc/uosmo'',
        evt_Denomination = uosmo, evt_BlockHeight = 100, evt_ChainID = ''osmosis-1'',
        evt_ChainName = ''osmosis'', evt_EventAddress = ''osmo1abc''\<rparr>])"
proof -
  have r: "reward_events sample_environment ''osmosis-1'' ''osmosis'' one_reward empty_store [] =
     (empty_store, Ok [\<lparr>evt_Source = 0, evt_Amount = 7, evt_EventHash = ''osmo1abc/uosmo'',
        evt_Denomination = uosmo, evt_BlockHeight = 100, evt_ChainID = ''osmosis-1'',
        evt_ChainName = ''osmosis'', evt_EventAddress = ''osmo1abc''\<rparr>])"
    by (simp add: one_reward_def sample_environment_def coin_event_def)
  then show ?thesis by (simp add: IndexOsmoRewards_def insert_batches_singleton)
qed

lemma GetTxsByBlockHeight_decode_error:
  assumes "get (host @ txs_by_block_height_endpoint height) = Inr resp"
    and "StatusCode resp = 200" and "BodyError resp = None"
    and "unmarshal (Body resp) zero = (r, Some err)"
  shows "GetTxsByBlockHeight get unmarshal zero host height = (r, Some err)"
  using assms by (simp add: GetTxsByBlockHeight_def checkResponseErrorCode_def ReadAll_def)

lemma GetLatestBlock_decode_error:
  assumes "get (host @ latest_block_endpoint) = Inr resp"
    and "StatusCode resp = 200" and "BodyError resp = None"
    and "unmarshal (Body resp) zero = (r, Some err)"
  shows "GetLatestBlock get unmarshal zero host = (r, Some err)"
  using assms by (simp add: GetLatestBlock_def checkResponseErrorCode_def ReadAll_def)

lemma GetBlockByHeight_drops_decode_error:
  assumes "get (host @ blocks_endpoint height) = Inr resp"
    and "StatusCode resp = 200" and "BodyError resp = None"
  shows "GetBlockByHeight get unmarshal zero host height = (fst (unmarshal (Body resp) zero), None)"
  using assms by (simp add: GetBlockByHeight_def checkResponseErrorCode_def ReadAll_def)

text \<open>
  Claim C8 (the code at the failing input). The node answers with status 200 and a body
  that is not JSON, and the decoder reports the error. \<open>GetTxsByBlockHeight\<close> and
  \<open>GetLatestBlock\<close> return that error; \<open>GetBlockByHeight\<close> drops it and returns the zero
  response with a nil error.
\<close>

theorem GetBlockByHeight_malformed_body_no_error:
  "sample_unmarshal ''<html>not json</html>'' 0 = (0, Some (JSONDecodeError ''<html>not json</html>'')) \<and>
   GetBlockByHeight html_node sample_unmarshal 0 ''http://node:1317'' 100 = (0, None) \<and>
   GetTxsByBlockHeight html_node sample_unmarshal 0 ''http://node:1317'' 100 =
     (0, Some (JSONDecodeError ''<html>not json</html>'')) \<and>
   GetLatestBlock html_node sample_unmarshal 0 ''http://node:1317'' =
     (0, Some (JSONDecodeError ''<html>not json</html>''))"
  by (simp add: GetBlockByHeight_def GetTxsByBlockHeight_def GetLatestBlock_def html_node_def
      sample_unmarshal_def checkResponseErrorCode_def ReadAll_def)



end
